theory Spec2Isabelle
  imports Complex_Main "HOL-Library.Product_Lexorder" "HOL-Library.Char_ord"
    "HOL-Library.List_Lexorder" "HOL-Library.Multiset"
begin

section \<open>Text helpers of the Python and SQL code\<close>

text \<open>
  Column names, labels and the classification filter are byte strings (ASCII).
  \<open>is_space\<close> is the set of ASCII characters that Python's \<^verbatim>\<open>str.strip()\<close> treats as
  whitespace: tab, line feed, vertical tab, form feed, carriage return, the four
  separators 0x1C..0x1F and the space.
\<close>

definition is_space :: "char \<Rightarrow> bool" where
  "is_space c = (let n = (of_char c :: nat) in (9 \<le> n \<and> n \<le> 13) \<or> (28 \<le> n \<and> n \<le> 32))"

text \<open>\<^verbatim>\<open>s.strip()\<close>: whitespace removed at both ends.\<close>

definition strip :: "string \<Rightarrow> string" where
  "strip s = rev (dropWhile is_space (rev (dropWhile is_space s)))"


text \<open>\<^verbatim>\<open>s.split(sep)\<close> for a one-character separator: always at least one field.\<close>

fun split_on :: "'a \<Rightarrow> 'a list \<Rightarrow> 'a list list" where
  "split_on sep [] = [[]]"
| "split_on sep (c # cs) =
     (if c = sep then [] # split_on sep cs
      else (case split_on sep cs of
              [] \<Rightarrow> [[c]]
            | f # fs \<Rightarrow> (c # f) # fs))"

subsection \<open>Strings of the environment: Unicode text\<close>

text \<open>
  The value of \<^verbatim>\<open>CLUSTER_LEVELS\<close> is a Python \<^verbatim>\<open>str\<close>: a list of Unicode code points.
  \<open>of_ascii\<close> reads a byte string as such a list. The character tables are those of
  CPython 3.11 (Unicode 14.0).
\<close>

type_synonym ustring = "nat list"

definition of_ascii :: "string \<Rightarrow> ustring" where
  "of_ascii s = map of_char s"

text \<open>
  The code points \<^verbatim>\<open>str.strip()\<close> removes and \<^verbatim>\<open>str.isspace()\<close> accepts.
\<close>

definition unicode_space :: "nat \<Rightarrow> bool" where
  "unicode_space c =
     ((9 \<le> c \<and> c \<le> 13) \<or> (28 \<le> c \<and> c \<le> 32) \<or> c = 133 \<or> c = 160 \<or> c = 5760
      \<or> (8192 \<le> c \<and> c \<le> 8202) \<or> c = 8232 \<or> c = 8233 \<or> c = 8239 \<or> c = 8287
      \<or> c = 12288)"

definition ustrip :: "ustring \<Rightarrow> ustring" where
  "ustrip s = rev (dropWhile unicode_space (rev (dropWhile unicode_space s)))"

text \<open>
  The whitespace \<^verbatim>\<open>int()\<close> skips around a literal. It turns the Unicode spaces from
  code point 127 on into blanks and then skips C's whitespace, so the separators
  0x1C..0x1F, which \<^verbatim>\<open>strip()\<close> removes, are not whitespace to it.
\<close>

definition int_space :: "nat \<Rightarrow> bool" where
  "int_space c = (unicode_space c \<and> \<not> (28 \<le> c \<and> c \<le> 31))"

text \<open>
  The decimal digits \<^verbatim>\<open>int()\<close> accepts: every character with the Unicode property
  decimal digit. They come in runs of ten, zero first; \<open>decimal_bases\<close> lists the zeros.
\<close>

definition decimal_bases :: "nat list" where
  "decimal_bases =
     [48, 1632, 1776, 1984, 2406, 2534, 2662, 2790,
      2918, 3046, 3174, 3302, 3430, 3558, 3664, 3792,
      3872, 4160, 4240, 6112, 6160, 6470, 6608, 6784,
      6800, 6992, 7088, 7232, 7248, 42528, 43216, 43264,
      43472, 43504, 43600, 44016, 65296, 66720, 68912, 69734,
      69872, 69942, 70096, 70384, 70736, 70864, 71248, 71360,
      71472, 71904, 72016, 72784, 73040, 73120, 92768, 92864,
      93008, 120782, 120792, 120802, 120812, 120822, 123200, 123632,
      125264, 130032]"

definition decimal_value :: "nat \<Rightarrow> nat option" where
  "decimal_value c =
     map_option (\<lambda>b. c - b) (find (\<lambda>b. b \<le> c \<and> c < b + 10) decimal_bases)"

text \<open>
  The digits of a base-10 \<^verbatim>\<open>int()\<close> literal: one or more digits, single underscores
  allowed between digits only. The arguments are the value so far, the number of digits
  so far and whether the previous character was a digit; the result is the value with
  the number of digits.
\<close>

fun parse_digits :: "nat \<Rightarrow> nat \<Rightarrow> bool \<Rightarrow> ustring \<Rightarrow> (nat \<times> nat) option" where
  "parse_digits acc n prev [] = (if prev then Some (acc, n) else None)"
| "parse_digits acc n prev (c # cs) =
     (case decimal_value c of
        Some d \<Rightarrow> parse_digits (acc * 10 + d) (n + 1) True cs
      | None \<Rightarrow> if c = 95 \<and> prev then parse_digits acc n False cs else None)"

text \<open>The interpreter's default limit on the digits of one literal.\<close>

definition max_str_digits :: nat where
  "max_str_digits = 4300"

text \<open>
  \<^verbatim>\<open>int(x)\<close> on a string: whitespace around the literal is skipped, then one optional
  sign (code point 43 or 45), then the digits. \<open>None\<close> is the \<^verbatim>\<open>ValueError\<close>, also
  raised for a literal of more than \<open>max_str_digits\<close> digits.
\<close>

definition signed_value :: "bool \<Rightarrow> ustring \<Rightarrow> int option" where
  "signed_value negative cs =
     (case parse_digits 0 0 False cs of
        None \<Rightarrow> None
      | Some (v, n) \<Rightarrow>
          if max_str_digits < n then None
          else Some (if negative then - int v else int v))"

definition py_int :: "ustring \<Rightarrow> int option" where
  "py_int x =
     (case rev (dropWhile int_space (rev (dropWhile int_space x))) of
        [] \<Rightarrow> None
      | c # cs \<Rightarrow>
          if c = 45 then signed_value True cs
          else if c = 43 then signed_value False cs
          else signed_value False (c # cs))"

text \<open>\<^verbatim>\<open>str(n)\<close> and SQL's \<^verbatim>\<open>n::text\<close> for an integer.\<close>

definition digit_char :: "nat \<Rightarrow> char" where
  "digit_char d = char_of (48 + d)"

function nat_to_text :: "nat \<Rightarrow> string" where
  "nat_to_text n =
     (if n < 10 then [digit_char n] else nat_to_text (n div 10) @ [digit_char (n mod 10)])"
  by pat_completeness auto
termination
  by (relation "measure id") auto

declare nat_to_text.simps [simp del]

definition int_to_text :: "int \<Rightarrow> string" where
  "int_to_text i = (if i < 0 then CHR ''-'' # nat_to_text (nat (- i)) else nat_to_text (nat i))"


section \<open>The aggregator's configuration (summarize\_cluster\_scores.main, lines 263--274)\<close>

definition DEFAULT_LEVELS :: "int list" where
  "DEFAULT_LEVELS = [5, 12, 30, 60]"

text \<open>
  The environment of the aggregator: the values \<^verbatim>\<open>os.getenv(name, "")\<close> returns (an unset
  variable reads as the empty string).
\<close>

record aggregator_env =
  CLUSTER_LEVELS :: ustring
  EA_CLASSIFICATION_FILTER :: string

text \<open>The non-blank entries of the comma-separated setting, in order.\<close>

definition level_entries :: "ustring \<Rightarrow> ustring list" where
  "level_entries levels_env = filter (\<lambda>x. ustrip x \<noteq> []) (split_on 44 levels_env)"

text \<open>
  Lines 264--271. The generator raises at the first entry \<^verbatim>\<open>int()\<close> rejects and the
  \<^verbatim>\<open>except\<close> clause then takes the default; \<open>those\<close> is \<open>None\<close> exactly then.
\<close>

definition parse_levels :: "ustring \<Rightarrow> int list" where
  "parse_levels raw =
     (let levels_env = ustrip raw in
      if levels_env \<noteq> [] then
        (case those (map py_int (level_entries levels_env)) of
           Some levels \<Rightarrow> levels
         | None \<Rightarrow> DEFAULT_LEVELS)
      else DEFAULT_LEVELS)"

text \<open>Lines 273--274: an empty or blank filter setting is no filter.\<close>

definition parse_filter :: "string \<Rightarrow> string option" where
  "parse_filter raw = (let classification_env = strip raw in
     if classification_env \<noteq> [] then Some classification_env else None)"

section \<open>The data source: table fellowship\_mvp\<close>

text \<open>
  One row of the table. Every column is nullable (\<open>None\<close> is SQL's NULL) except the key.
  The per-level columns \<^verbatim>\<open>ea_cluster_{L}\<close> and \<^verbatim>\<open>ea_cluster_{L}_name\<close> are read through
  the level \<open>L\<close>; timestamps are integers; the two scores are exact numbers.
\<close>

record post =
  post_id :: string
  title :: "string option"
  author_display_name :: "string option"
  posted_at :: "int option"
  base_score :: "rat option"
  score :: "rat option"
  ea_classification :: "string option"
  ea_cluster :: "int \<Rightarrow> int option"
  ea_cluster_name :: "int \<Rightarrow> string option"

text \<open>
  What a connection sees: the names of the table's columns (the rows of
  \<^verbatim>\<open>information_schema.columns\<close> for the table) and the table's rows in storage order.
\<close>

record database =
  columns :: "string list"
  posts :: "post list"

datatype error = ConnectionFailure | UndefinedColumn string

text \<open>Lines 84--85, 157--158, 206--207 and the viewer's line 128: the f-strings.\<close>

definition id_col :: "int \<Rightarrow> string" where
  "id_col level = ''ea_cluster_'' @ int_to_text level"

definition name_col :: "int \<Rightarrow> string" where
  "name_col level = ''ea_cluster_'' @ int_to_text level @ ''_name''"

text \<open>Lines 34--45.\<close>

definition column_exists :: "database \<Rightarrow> string \<Rightarrow> string \<Rightarrow> bool" where
  "column_exists conn tbl col = (tbl = ''fellowship_mvp'' \<and> col \<in> set (columns conn))"

text \<open>
  A statement that names a column the table does not have raises; the exception leaves
  the function that executed it. \<open>check_columns\<close> gives the error for the first such
  column of a statement, if any.
\<close>

definition check_columns :: "database \<Rightarrow> string list \<Rightarrow> error option" where
  "check_columns conn cols =
     map_option UndefinedColumn (find (\<lambda>c. c \<notin> set (columns conn)) cols)"


section \<open>SQL aggregates\<close>

text \<open>\<^verbatim>\<open>COUNT(*)::int\<close>: never NULL, zero over no rows.\<close>

definition sql_count :: "'a list \<Rightarrow> int" where
  "sql_count rows = int (length rows)"

text \<open>\<^verbatim>\<open>SUM(e)::int\<close> for an expression that is never NULL: NULL over no rows.\<close>

definition sql_sum :: "int list \<Rightarrow> int option" where
  "sql_sum vals = (if vals = [] then None else Some (sum_list vals))"

text \<open>The non-NULL values of a column: the ones \<^verbatim>\<open>AVG\<close> and \<^verbatim>\<open>STDDEV\<close> see.\<close>

definition non_null :: "'a option list \<Rightarrow> 'a list" where
  "non_null vals = List.map_filter id vals"

definition sql_avg :: "rat option list \<Rightarrow> rat option" where
  "sql_avg vals = (let vs = non_null vals in
     if vs = [] then None else Some (sum_list vs / of_nat (length vs)))"

text \<open>
  \<^verbatim>\<open>STDDEV\<close> is the sample standard deviation, NULL for fewer than two values. The
  result is kept exact: \<open>SqrtOf v\<close> stands for the square root of the sample variance
  \<open>v\<close>. (Python's \<^verbatim>\<open>float(...)\<close> of the averages and deviations is not modelled.)
\<close>

datatype stddev = SqrtOf rat

definition sql_stddev :: "rat option list \<Rightarrow> stddev option" where
  "sql_stddev vals = (let vs = non_null vals; n = length vs in
     if n < 2 then None
     else Some (SqrtOf ((sum_list (map (\<lambda>x. x * x) vs) - sum_list vs * sum_list vs / of_nat n)
                        / of_nat (n - 1))))"

text \<open>\<^verbatim>\<open>CASE WHEN ea_classification = label THEN 1 ELSE 0 END\<close>: a NULL label counts 0.\<close>

definition case_label :: "string \<Rightarrow> post \<Rightarrow> int" where
  "case_label label p = (if ea_classification p = Some label then 1 else 0)"


section \<open>The rows of the two artifacts\<close>

record level_row =
  level :: int
  post_count :: int
  meta_posts :: "int option"
  proper_posts :: "int option"
  avg_base_score :: "rat option"
  stddev_base_score :: "stddev option"
  avg_score :: "rat option"
  stddev_score :: "stddev option"

record cluster_row = level_row +
  cluster_id :: int
  cluster_name :: string

text \<open>The aggregate columns that both export queries select, over the rows \<open>ps\<close>.\<close>

definition aggregates :: "int \<Rightarrow> post list \<Rightarrow> level_row" where
  "aggregates lvl ps =
     \<lparr> level = lvl,
       post_count = sql_count ps,
       meta_posts = sql_sum (map (case_label ''EA_META'') ps),
       proper_posts = sql_sum (map (case_label ''EA_PROPER'') ps),
       avg_base_score = sql_avg (map base_score ps),
       stddev_base_score = sql_stddev (map base_score ps),
       avg_score = sql_avg (map score ps),
       stddev_score = sql_stddev (map score ps) \<rparr>"


section \<open>export\_level\_overview\_csv (lines 153--199)\<close>

text \<open>
  Lines 162--177: the query of one level. An aggregate without GROUP BY returns exactly
  one row, so \<^verbatim>\<open>cur.fetchone() or {}\<close> is that row.
\<close>

definition level_overview_query :: "database \<Rightarrow> int \<Rightarrow> error + level_row" where
  "level_overview_query conn lvl =
     (case check_columns conn [''ea_classification'', ''base_score'', ''score'', id_col lvl] of
        Some e \<Rightarrow> Inl e
      | None \<Rightarrow> Inr (aggregates lvl (filter (\<lambda>p. ea_cluster p lvl \<noteq> None) (posts conn))))"

text \<open>Lines 155--187: the loop that collects \<^verbatim>\<open>rows\<close>; an exception leaves it.\<close>

fun export_level_overview_rows :: "database \<Rightarrow> int list \<Rightarrow> error + level_row list" where
  "export_level_overview_rows conn [] = Inr []"
| "export_level_overview_rows conn (lvl # levels) =
     (if \<not> column_exists conn ''fellowship_mvp'' (id_col lvl)
      then export_level_overview_rows conn levels
      else (case level_overview_query conn lvl of
              Inl e \<Rightarrow> Inl e
            | Inr r \<Rightarrow> (case export_level_overview_rows conn levels of
                          Inl e \<Rightarrow> Inl e
                        | Inr rows \<Rightarrow> Inr (r # rows))))"


section \<open>export\_cluster\_details\_csv (lines 202--260)\<close>

text \<open>Lines 212--215 (and 107--111): the \<^verbatim>\<open>cluster_name\<close> expression of a row.\<close>

definition select_name :: "bool \<Rightarrow> int \<Rightarrow> int \<Rightarrow> post \<Rightarrow> string" where
  "select_name has_name_col lvl cid p =
     (if has_name_col
      then (case ea_cluster_name p lvl of
              Some n \<Rightarrow> n
            | None \<Rightarrow> ''Cluster '' @ int_to_text cid)
      else ''Cluster '' @ int_to_text cid)"

text \<open>
  \<^verbatim>\<open>WHERE id_col IS NOT NULL\<close> with the grouping key \<^verbatim>\<open>(id_col, cluster_name)\<close> of each
  remaining row.
\<close>

definition keyed :: "bool \<Rightarrow> int \<Rightarrow> post list \<Rightarrow> ((int \<times> string) \<times> post) list" where
  "keyed has_name_col lvl ps =
     List.map_filter
       (\<lambda>p. case ea_cluster p lvl of
               None \<Rightarrow> None
             | Some cid \<Rightarrow> Some ((cid, select_name has_name_col lvl cid p), p)) ps"

text \<open>\<^verbatim>\<open>GROUP BY\<close>: one group per distinct key, each with its rows.\<close>

definition group_by_key :: "('k \<times> 'a) list \<Rightarrow> ('k \<times> 'a list) list" where
  "group_by_key kps =
     map (\<lambda>k. (k, map snd (filter (\<lambda>kp. fst kp = k) kps))) (remdups (map fst kps))"

definition cluster_row_of :: "int \<Rightarrow> (int \<times> string) \<times> post list \<Rightarrow> cluster_row" where
  "cluster_row_of lvl g =
     level_row.extend (aggregates lvl (snd g))
       \<lparr> cluster_id = fst (fst g), cluster_name = snd (fst g) \<rparr>"

text \<open>
  \<^verbatim>\<open>ORDER BY post_count DESC, cluster_id ASC\<close>. Rows that agree on both are left in the
  order the grouping produced them (SQL leaves their order open).
\<close>

definition order_key :: "'a level_row_scheme \<Rightarrow> int \<Rightarrow> int \<times> int" where
  "order_key r cid = (- post_count r, cid)"

definition cluster_details_query :: "database \<Rightarrow> int \<Rightarrow> error + cluster_row list" where
  "cluster_details_query conn lvl =
     (let has_name_col = column_exists conn ''fellowship_mvp'' (name_col lvl) in
      case check_columns conn
             ([id_col lvl] @ (if has_name_col then [name_col lvl] else [])
                @ [''ea_classification'', ''base_score'', ''score'']) of
        Some e \<Rightarrow> Inl e
      | None \<Rightarrow>
          Inr (sort_key (\<lambda>r. order_key r (cluster_id r))
                 (map (cluster_row_of lvl)
                    (group_by_key (keyed has_name_col lvl (posts conn))))))"

fun export_cluster_details_rows :: "database \<Rightarrow> int list \<Rightarrow> error + cluster_row list" where
  "export_cluster_details_rows conn [] = Inr []"
| "export_cluster_details_rows conn (lvl # levels) =
     (if \<not> column_exists conn ''fellowship_mvp'' (id_col lvl)
      then export_cluster_details_rows conn levels
      else (case cluster_details_query conn lvl of
              Inl e \<Rightarrow> Inl e
            | Inr res \<Rightarrow> (case export_cluster_details_rows conn levels of
                            Inl e \<Rightarrow> Inl e
                          | Inr rows \<Rightarrow> Inr (res @ rows))))"


section \<open>Console output and summarize\_level (lines 65--150)\<close>

text \<open>
  What the aggregator prints, one value per printed block: a \<open>Header\<close> is the three lines
  of \<^verbatim>\<open>print_header\<close>, a \<open>SectionTitle\<close> is the subtitle of a level's section with its
  underline, a \<open>SkipNotice\<close> is the \<^verbatim>\<open>[skip]\<close> line of a level without columns.
\<close>

datatype printed =
    Header string
  | ClassLine string int "rat option" "stddev option" "rat option" "stddev option"
  | SkipNotice int
  | SectionTitle int "string option"
  | NoRows
  | ClusterLine string int "rat option" "stddev option"
  | Blank
  | Exported string

text \<open>Python's truth value of an optional string: \<^verbatim>\<open>None\<close> and \<^verbatim>\<open>""\<close> are false.\<close>

definition truthy :: "string option \<Rightarrow> bool" where
  "truthy f = (f \<noteq> None \<and> f \<noteq> Some [])"

text \<open>Lines 142--149: the line of one group.\<close>

definition cluster_line :: "(int \<times> string) \<times> post list \<Rightarrow> printed" where
  "cluster_line g =
     ClusterLine (if snd (fst g) \<noteq> [] then snd (fst g) else ''Cluster '' @ int_to_text (fst (fst g)))
       (sql_count (snd g)) (sql_avg (map base_score (snd g)))
       (sql_stddev (map base_score (snd g)))"

definition summarize_level :: "database \<Rightarrow> int \<Rightarrow> string option \<Rightarrow> error + printed list" where
  "summarize_level conn lvl classification_filter =
     (if \<not> column_exists conn ''fellowship_mvp'' (id_col lvl) then Inr [SkipNotice lvl]
      else
        let has_name_col = column_exists conn ''fellowship_mvp'' (name_col lvl);
            use_filter = (truthy classification_filter
                          \<and> column_exists conn ''fellowship_mvp'' ''ea_classification'');
            ps = (if use_filter
                  then filter (\<lambda>p. ea_classification p = classification_filter) (posts conn)
                  else posts conn)
        in case check_columns conn
                  ([id_col lvl] @ (if has_name_col then [name_col lvl] else [])
                     @ [''base_score''] @ (if use_filter then [''ea_classification''] else [])) of
             Some e \<Rightarrow> Inl e
           | None \<Rightarrow>
               let rows = sort_key (\<lambda>g. (- sql_count (snd g), fst (fst g)))
                            (group_by_key (keyed has_name_col lvl ps))
               in Inr ([SectionTitle lvl
                          (if truthy classification_filter then classification_filter else None)]
                       @ (if rows = [] then [NoRows, Blank]
                          else map cluster_line rows @ [Blank])))"


section \<open>The aggregator's main (lines 263--344)\<close>

text \<open>
  The state the aggregator changes: what it has printed and the two CSV artifacts of the
  output directory (\<open>None\<close>: no such file). A file holds its data rows; the header line
  is always written with them.
\<close>

record world =
  console :: "printed list"
  level_csv :: "level_row list option"
  cluster_csv :: "cluster_row list option"

definition emit :: "printed list \<Rightarrow> world \<Rightarrow> world" where
  "emit out w = w\<lparr>console := console w @ out\<rparr>"

text \<open>
  A step returns the exception it raised, if any, with the state it left. \<open>and_then\<close>
  runs the next step only after a step that returned normally.
\<close>

definition and_then ::
  "error option \<times> world \<Rightarrow> (world \<Rightarrow> error option \<times> world) \<Rightarrow> error option \<times> world" where
  "and_then r f = (case r of (Some e, w) \<Rightarrow> (Some e, w) | (None, w) \<Rightarrow> f w)"

text \<open>Lines 322--323 and 340--341: \<^verbatim>\<open>for level in levels: summarize_level(...)\<close>.\<close>

fun summarize_levels ::
  "database \<Rightarrow> int list \<Rightarrow> string option \<Rightarrow> world \<Rightarrow> error option \<times> world" where
  "summarize_levels conn [] cf w = (None, w)"
| "summarize_levels conn (lvl # levels) cf w =
     (case summarize_level conn lvl cf of
        Inl e \<Rightarrow> (Some e, w)
      | Inr out \<Rightarrow> summarize_levels conn levels cf (emit out w))"

text \<open>Lines 280--317: the comparison of the two labels, printed only.\<close>

definition class_line :: "database \<Rightarrow> string \<times> string \<Rightarrow> printed list" where
  "class_line conn lab =
     (let ps = filter (\<lambda>p. ea_classification p = Some (fst lab)) (posts conn) in
      if ps = [] then []
      else [ClassLine (snd lab) (sql_count ps)
              (sql_avg (map base_score ps)) (sql_stddev (map base_score ps))
              (sql_avg (map score ps)) (sql_stddev (map score ps))])"

definition class_summary :: "database \<Rightarrow> world \<Rightarrow> error option \<times> world" where
  "class_summary conn w =
     (if column_exists conn ''fellowship_mvp'' ''ea_classification'' then
        let w1 = emit [Header ''EA Meta vs Proper Summary (base_score and score)''] w in
        (case check_columns conn [''ea_classification'', ''base_score'', ''score''] of
           Some e \<Rightarrow> (Some e, w1)
         | None \<Rightarrow>
             (None, emit (concat (map (class_line conn)
                                    [(''EA_META'', ''EA Meta''), (''EA_PROPER'', ''EA Proper'')])
                          @ [Blank]) w1))
      else (None, w))"

text \<open>Lines 189--199 and 249--260: the file is written after the loop has returned.\<close>

definition export_level_overview_csv ::
  "database \<Rightarrow> int list \<Rightarrow> world \<Rightarrow> error option \<times> world" where
  "export_level_overview_csv conn levels w =
     (case export_level_overview_rows conn levels of
        Inl e \<Rightarrow> (Some e, w)
      | Inr rows \<Rightarrow> (None, w\<lparr>level_csv := Some rows\<rparr>))"

definition export_cluster_details_csv ::
  "database \<Rightarrow> int list \<Rightarrow> world \<Rightarrow> error option \<times> world" where
  "export_cluster_details_csv conn levels w =
     (case export_cluster_details_rows conn levels of
        Inl e \<Rightarrow> (Some e, w)
      | Inr rows \<Rightarrow> (None, w\<lparr>cluster_csv := Some rows\<rparr>))"

text \<open>Lines 48--62; the labels are in byte order.\<close>

definition classification_values :: "database \<Rightarrow> bool \<times> string list" where
  "classification_values conn =
     (if \<not> column_exists conn ''fellowship_mvp'' ''ea_classification'' then (False, [])
      else (True, sort (remdups (non_null (map ea_classification (posts conn))))))"

text \<open>Lines 339--341: one pass over the levels per label.\<close>

fun breakdown ::
  "database \<Rightarrow> int list \<Rightarrow> string list \<Rightarrow> world \<Rightarrow> error option \<times> world" where
  "breakdown conn levels [] w = (None, w)"
| "breakdown conn levels (cls # vals) w =
     and_then (summarize_levels conn levels (Some cls) w) (breakdown conn levels vals)"

text \<open>
  Lines 278--342, with an open connection. (\<^verbatim>\<open>conn.close()\<close> of the \<^verbatim>\<open>finally\<close> clause
  changes nothing the model holds.)
\<close>

definition run :: "database \<Rightarrow> int list \<Rightarrow> string option \<Rightarrow> world \<Rightarrow> error option \<times> world" where
  "run conn levels classification_filter w =
     and_then (class_summary conn w) (\<lambda>w.
     and_then (summarize_levels conn levels classification_filter
                 (emit [Header ''EA Forum Cluster Score Summary''] w)) (\<lambda>w.
     and_then (export_level_overview_csv conn levels w) (\<lambda>w.
     and_then (export_cluster_details_csv conn levels w) (\<lambda>w.
       let w1 = emit [Exported ''cluster_level_summary.csv'',
                      Exported ''cluster_cluster_summary.csv''] w;
           cv = classification_values conn
       in if fst cv \<and> \<not> truthy classification_filter
          then breakdown conn levels (snd cv)
                 (emit [Header ''Breakdown by EA Classification''] w1)
          else (None, w1)))))"

text \<open>
  \<^verbatim>\<open>main()\<close>. The second argument is what \<^verbatim>\<open>connect_db()\<close> gives: the connection, or
  \<open>None\<close> when \<^verbatim>\<open>psycopg2.connect\<close> raises.
\<close>

definition main :: "aggregator_env \<Rightarrow> database option \<Rightarrow> world \<Rightarrow> error option \<times> world" where
  "main env connect_db w =
     (let levels = parse_levels (CLUSTER_LEVELS env);
          classification_filter = parse_filter (EA_CLASSIFICATION_FILTER env)
      in case connect_db of
           None \<Rightarrow> (Some ConnectionFailure, w)
         | Some conn \<Rightarrow> run conn levels classification_filter w)"


section \<open>The viewer (cluster\_dashboard\_app)\<close>

record overview =
  total_posts :: int
  shown_meta_posts :: int
  shown_proper_posts :: int

text \<open>
  What a run of the script shows: the blocking error of lines 178--182, an uncaught
  exception, or the page with its optional overview and one section per level.
\<close>

datatype page =
    Blocked
  | Crashed
  | Page "overview option" "(int \<times> cluster_row list) list"

text \<open>
  \<^verbatim>\<open>.round(0).astype("Int64")\<close> of a number column (the viewer's lines 158, 321 and 322)
  raises when a rounded value does not fit a signed 64-bit integer. A cell is the double
  nearest to the exact value: the doubles from \<open>2^63\<close> on are reached from \<open>2^63 - 512\<close>
  on, those below \<open>- 2^63\<close> from below \<open>- (2^63 + 1024)\<close>.
\<close>

definition int64_cast_raises :: "rat \<Rightarrow> bool" where
  "int64_cast_raises v = (2 ^ 63 - 512 \<le> v \<or> v < - (2 ^ 63 + 1024))"

definition stddev_cast_raises :: "stddev \<Rightarrow> bool" where
  "stddev_cast_raises d = (case d of SqrtOf v \<Rightarrow> (2 ^ 63 - 512) * (2 ^ 63 - 512) \<le> v)"

text \<open>Lines 188 and 250--254: the levels of the cluster file and their rows.\<close>

definition level_sections :: "cluster_row list \<Rightarrow> (int \<times> cluster_row list) list" where
  "level_sections cluster_df =
     map (\<lambda>lvl. (lvl, filter (\<lambda>r. level r = lvl) cluster_df))
       (sort (remdups (map level cluster_df)))"

text \<open>
  Lines 321--330, on the rows of one level: the two casts to \<^verbatim>\<open>Int64\<close> raise on a value
  out of range, and \<^verbatim>\<open>float(... .max() or 0.0)\<close> raises when the maximum is \<^verbatim>\<open>pd.NA\<close>,
  that is when every average base score, or every base score deviation, of the level is
  empty. (The Streamlit and Altair calls of a section are taken not to raise.)
\<close>

definition section_raises :: "cluster_row list \<Rightarrow> bool" where
  "section_raises df =
     (list_ex (\<lambda>r. case avg_base_score r of None \<Rightarrow> False | Some v \<Rightarrow> int64_cast_raises v) df
      \<or> list_ex (\<lambda>r. case stddev_base_score r of None \<Rightarrow> False
                                               | Some d \<Rightarrow> stddev_cast_raises d) df
      \<or> list_all (\<lambda>r. avg_base_score r = None) df
      \<or> list_all (\<lambda>r. stddev_base_score r = None) df)"

text \<open>
  Lines 177--404. A file is \<open>None\<close> when its path does not exist, else its data rows
  (\<open>[]\<close> for a file of the header line only). \<^verbatim>\<open>int(...)\<close> of an empty cell (NaN)
  raises. Of the overview the three counts are kept; the shares and score figures shown
  with them are floating-point renderings of the same row. The sections are rendered in
  the order of their levels, and an exception in one of them ends the script.
\<close>

definition render_sections :: "overview option \<Rightarrow> cluster_row list \<Rightarrow> page" where
  "render_sections ov cluster_df =
     (if list_ex (\<lambda>sec. section_raises (snd sec)) (level_sections cluster_df) then Crashed
      else Page ov (level_sections cluster_df))"

definition viewer_main :: "level_row list option \<Rightarrow> cluster_row list option \<Rightarrow> page" where
  "viewer_main level_file cluster_file =
     (case (level_file, cluster_file) of
        (Some level_df, Some cluster_df) \<Rightarrow>
          (case level_df of
             [] \<Rightarrow> render_sections None cluster_df
           | r # _ \<Rightarrow>
               (case (meta_posts r, proper_posts r) of
                  (Some m, Some p) \<Rightarrow>
                    render_sections
                      (Some \<lparr> total_posts = post_count r, shown_meta_posts = m,
                               shown_proper_posts = p \<rparr>)
                      cluster_df
                | _ \<Rightarrow> Crashed))
      | _ \<Rightarrow> Blocked)"

text \<open>
  The viewer's connection (lines 106--117): the resolved \<^verbatim>\<open>DATABASE_URL\<close>, the two
  driver flags and what connecting to a URL gives (\<open>None\<close> when the driver raises).
\<close>

record viewer_env =
  database_url :: string
  HAVE_PSYCOPG2 :: bool
  HAVE_PSYCOPG :: bool
  connect :: "string \<Rightarrow> database option"

definition connect_db :: "viewer_env \<Rightarrow> database option" where
  "connect_db env =
     (let url = database_url env in
      if url = [] then None
      else if HAVE_PSYCOPG2 env then connect env url
      else if HAVE_PSYCOPG env then connect env url
      else None)"

text \<open>\<^verbatim>\<open>ORDER BY c DESC NULLS LAST\<close> as an ascending key.\<close>

definition desc_nulls_last :: "'a::{linorder,uminus,zero} option \<Rightarrow> nat \<times> 'a" where
  "desc_nulls_last v = (case v of None \<Rightarrow> (1, 0) | Some x \<Rightarrow> (0, - x))"

text \<open>
  Lines 129--146: the statement. A row stands for its six selected columns; rows that
  agree on the sort column stay in storage order (SQL leaves their order open).
\<close>

definition cluster_posts_query ::
  "database \<Rightarrow> int \<Rightarrow> int \<Rightarrow> string \<Rightarrow> error + post list" where
  "cluster_posts_query conn lvl cid sort_by =
     (case check_columns conn
             [''post_id'', ''title'', ''author_display_name'', ''posted_at'', ''base_score'',
              ''score'', id_col lvl] of
        Some e \<Rightarrow> Inl e
      | None \<Rightarrow>
          Inr (take 500
                 ((if sort_by = ''score''
                   then sort_key (\<lambda>p. desc_nulls_last (score p))
                   else sort_key (\<lambda>p. desc_nulls_last (posted_at p)))
                    (filter (\<lambda>p. ea_cluster p lvl = Some cid) (posts conn)))))"

text \<open>
  Lines 149--161, inside the \<^verbatim>\<open>try\<close> of the function: of the formatting of a result
  that is not empty, the date conversion has its own \<^verbatim>\<open>try\<close> and rounding the score
  does not raise; the cast of the rounded base scores to \<^verbatim>\<open>Int64\<close> raises when one of
  them is out of range.
\<close>

definition formatting_raises :: "post list \<Rightarrow> bool" where
  "formatting_raises rows =
     list_ex (\<lambda>p. case base_score p of None \<Rightarrow> False | Some v \<Rightarrow> int64_cast_raises v) rows"

text \<open>
  Lines 120--168. The empty list is the empty DataFrame: returned without a connection
  and by the \<^verbatim>\<open>except\<close> clause, which catches what the statement and the formatting
  raise. (The formatting rewrites cells of a row and keeps the rows and their order.)
\<close>

definition fetch_cluster_posts :: "viewer_env \<Rightarrow> int \<Rightarrow> int \<Rightarrow> string \<Rightarrow> post list" where
  "fetch_cluster_posts env lvl cid sort_by =
     (case connect_db env of
        None \<Rightarrow> []
      | Some conn \<Rightarrow>
          (case cluster_posts_query conn lvl cid sort_by of
             Inl e \<Rightarrow> []
           | Inr rows \<Rightarrow> if formatting_raises rows then [] else rows))"


section \<open>Orders and views the properties are stated with\<close>

text \<open>
  The order of the cluster summary: \<open>r\<close> may stand before \<open>s\<close> when it has more posts,
  or as many and a cluster id that is not larger.
\<close>

definition summary_order :: "cluster_row \<Rightarrow> cluster_row \<Rightarrow> bool" where
  "summary_order r s =
     (post_count r > post_count s
      \<or> (post_count r = post_count s \<and> cluster_id r \<le> cluster_id s))"

text \<open>
  Descending with NULLs last: \<open>a\<close> may stand before \<open>b\<close> when \<open>b\<close> is NULL, or both are
  values and \<open>a\<close> is not smaller.
\<close>

definition desc_order :: "'a::linorder option \<Rightarrow> 'a option \<Rightarrow> bool" where
  "desc_order a b =
     (case b of
        None \<Rightarrow> True
      | Some y \<Rightarrow> (case a of None \<Rightarrow> False | Some x \<Rightarrow> y \<le> x))"


text \<open>The order \<^verbatim>\<open>fetch_cluster_posts\<close> is asked for: by score, or else by publication date.\<close>

definition fetch_order :: "string \<Rightarrow> post \<Rightarrow> post \<Rightarrow> bool" where
  "fetch_order sort_by p q =
     (if sort_by = ''score'' then desc_order (score p) (score q)
      else desc_order (posted_at p) (posted_at q))"


text \<open>The two artifacts of a state.\<close>

definition artifacts :: "world \<Rightarrow> level_row list option \<times> cluster_row list option" where
  "artifacts w = (level_csv w, cluster_csv w)"


section \<open>A small data source for the concrete checks\<close>

text \<open>
  Three posts clustered at level 5 (clusters 1, 1 and 2), of which only the first is
  clustered at level 12; the table has no \<^verbatim>\<open>ea_cluster_30\<close> column and no name columns.
\<close>

definition mk_post ::
  "string \<Rightarrow> int option \<Rightarrow> int option \<Rightarrow> rat option \<Rightarrow> string option \<Rightarrow> post" where
  "mk_post pid c5 c12 b cls =
     \<lparr> post_id = pid, title = None, author_display_name = None, posted_at = None,
       base_score = b, score = b, ea_classification = cls,
       ea_cluster = (\<lambda>l. if l = 5 then c5 else if l = 12 then c12 else None),
       ea_cluster_name = (\<lambda>l. None) \<rparr>"

definition ex_db :: database where
  "ex_db = \<lparr> columns = [''post_id'', ''title'', ''author_display_name'', ''posted_at'',
                        ''base_score'', ''score'', ''ea_classification'',
                        ''ea_cluster_5'', ''ea_cluster_12''],
             posts = [mk_post ''a'' (Some 1) (Some 7) (Some 10) (Some ''EA_META''),
                      mk_post ''b'' (Some 1) None (Some 20) (Some ''EA_PROPER''),
                      mk_post ''c'' (Some 2) None (Some 30) (Some ''EA_PROPER'')] \<rparr>"

text \<open>The same table before any post is stored.\<close>

definition empty_db :: database where
  "empty_db = ex_db\<lparr>posts := []\<rparr>"

definition ex_world :: world where
  "ex_world = \<lparr> console = [], level_csv = None, cluster_csv = None \<rparr>"


text \<open>A viewer whose configured URL reaches the example table.\<close>

definition ex_env :: viewer_env where
  "ex_env = \<lparr> database_url = ''postgresql://forum'', HAVE_PSYCOPG2 = True, HAVE_PSYCOPG = False,
              connect = (\<lambda>url. if url = ''postgresql://forum'' then Some ex_db else None) \<rparr>"


text \<open>A configuration that lists the level without a column.\<close>

definition ex_agg_env :: aggregator_env where
  "ex_agg_env = \<lparr> CLUSTER_LEVELS = of_ascii ''5,12,30'', EA_CLASSIFICATION_FILTER = [] \<rparr>"


text \<open>A table in which every post is clustered at both levels or at neither.\<close>

definition uniform_db :: database where
  "uniform_db = ex_db\<lparr>posts := [mk_post ''a'' (Some 1) (Some 7) (Some 10) (Some ''EA_META''),
                                  mk_post ''b'' (Some 1) (Some 8) (Some 20) None,
                                  mk_post ''c'' None None (Some 30) (Some ''EA_PROPER'')]\<rparr>"


text \<open>A table with one post whose base score is beyond 64 bits, and a viewer on it.\<close>

definition huge_db :: database where
  "huge_db = ex_db\<lparr>posts := [mk_post ''h'' (Some 1) None (Some 10000000000000000000) None]\<rparr>"

definition huge_env :: viewer_env where
  "huge_env = ex_env\<lparr>connect := (\<lambda>url. Some huge_db)\<rparr>"


section \<open>Facts about grouping, sorting and the two export queries\<close>

lemma sum_list_insort_key:
  "sum_list (map f (insort_key k x xs)) = (f x :: int) + sum_list (map f xs)"
  by (induction xs) auto

lemma sum_list_sort_key: "sum_list (map f (sort_key k xs)) = (sum_list (map f xs) :: int)"
  by (induction xs) (auto simp: sum_list_insort_key)

lemma length_filter_disjoint:
  "(\<And>x. x \<in> set xs \<Longrightarrow> \<not> (P x \<and> Q x)) \<Longrightarrow>
     length (filter P xs) + length (filter Q xs) = length (filter (\<lambda>x. P x \<or> Q x) xs)"
  by (induction xs) auto

lemma group_counts_sum_gen:
  "sum_list (map (\<lambda>k. int (length (filter (\<lambda>kp. fst kp = k) kps))) (remdups ks))
     = int (length (filter (\<lambda>kp. fst kp \<in> set ks) kps))"
proof (induction ks)
  case Nil
  then show ?case by simp
next
  case (Cons k ks)
  show ?case
  proof (cases "k \<in> set ks")
    case True
    then have "(\<lambda>kp. fst kp \<in> set (k # ks)) = (\<lambda>kp::'a \<times> 'b. fst kp \<in> set ks)"
      by auto
    with True Cons show ?thesis by simp
  next
    case False
    have "length (filter (\<lambda>kp. fst kp = k) kps) + length (filter (\<lambda>kp. fst kp \<in> set ks) kps)
        = length (filter (\<lambda>kp. fst kp = k \<or> fst kp \<in> set ks) kps)"
      using False by (intro length_filter_disjoint) auto
    with False Cons show ?thesis by simp
  qed
qed

lemma post_count_group_by_key:
  "sum_list (map (\<lambda>g. sql_count (snd g)) (group_by_key kps)) = int (length kps)"
proof -
  have "filter (\<lambda>kp. fst kp \<in> set (map fst kps)) kps = kps"
    by (induction kps) auto
  then show ?thesis
    using group_counts_sum_gen [of kps "map fst kps"]
    by (simp add: group_by_key_def sql_count_def comp_def)
qed

lemma length_keyed:
  "length (keyed h lvl ps) = length (filter (\<lambda>p. ea_cluster p lvl \<noteq> None) ps)"
  by (induction ps) (auto simp: keyed_def List.map_filter_simps split: option.splits)

lemma post_count_cluster_row_of: "post_count (cluster_row_of lvl g) = sql_count (snd g)"
  by (simp add: cluster_row_of_def aggregates_def level_row.defs)

lemma level_cluster_row_of: "level (cluster_row_of lvl g) = lvl"
  by (simp add: cluster_row_of_def aggregates_def level_row.defs)

lemma cluster_id_cluster_row_of: "cluster_id (cluster_row_of lvl g) = fst (fst g)"
  by (simp add: cluster_row_of_def aggregates_def level_row.defs)

lemma cluster_details_query_level:
  "cluster_details_query conn lvl = Inr res \<Longrightarrow> r \<in> set res \<Longrightarrow> level r = lvl"
  by (auto simp: cluster_details_query_def Let_def level_cluster_row_of split: option.splits)

lemma cluster_details_query_count:
  "cluster_details_query conn lvl = Inr res \<Longrightarrow>
     sum_list (map post_count res)
       = sql_count (filter (\<lambda>p. ea_cluster p lvl \<noteq> None) (posts conn))"
proof -
  assume q: "cluster_details_query conn lvl = Inr res"
  define h where "h = column_exists conn ''fellowship_mvp'' (name_col lvl)"
  from q have res: "res = sort_key (\<lambda>r. order_key r (cluster_id r))
      (map (cluster_row_of lvl) (group_by_key (keyed h lvl (posts conn))))"
    by (auto simp: cluster_details_query_def Let_def h_def split: option.splits)
  have "sum_list (map post_count res)
      = sum_list (map (\<lambda>g. sql_count (snd g)) (group_by_key (keyed h lvl (posts conn))))"
    unfolding res by (simp add: sum_list_sort_key comp_def post_count_cluster_row_of)
  also have "\<dots> = int (length (keyed h lvl (posts conn)))"
    by (rule post_count_group_by_key)
  finally show ?thesis
    by (simp add: length_keyed sql_count_def)
qed

lemma level_overview_query_row:
  "level_overview_query conn lvl = Inr r \<Longrightarrow>
     level r = lvl
     \<and> post_count r = sql_count (filter (\<lambda>p. ea_cluster p lvl \<noteq> None) (posts conn))"
  by (auto simp: level_overview_query_def aggregates_def split: option.splits)

lemma export_level_overview_levels:
  "export_level_overview_rows conn levels = Inr lrows \<Longrightarrow>
     map level lrows = filter (\<lambda>l. column_exists conn ''fellowship_mvp'' (id_col l)) levels"
proof (induction levels arbitrary: lrows)
  case Nil
  then show ?case by simp
next
  case (Cons lvl levels)
  then show ?case
    by (auto split: if_splits sum.splits dest: level_overview_query_row)
qed

lemma export_counts_agree:
  "export_level_overview_rows conn levels = Inr lrows \<Longrightarrow>
   export_cluster_details_rows conn levels = Inr crows \<Longrightarrow>
     sum_list (map post_count (filter (\<lambda>r. level r = L) crows))
       = sum_list (map post_count (filter (\<lambda>r. level r = L) lrows))"
proof (induction levels arbitrary: lrows crows)
  case Nil
  then show ?case by simp
next
  case (Cons lvl levels)
  show ?case
  proof (cases "column_exists conn ''fellowship_mvp'' (id_col lvl)")
    case False
    with Cons show ?thesis by simp
  next
    case True
    from True Cons.prems obtain r lrows' where
      r: "level_overview_query conn lvl = Inr r" and
      lr: "export_level_overview_rows conn levels = Inr lrows'" and
      lrows: "lrows = r # lrows'"
      by (auto split: sum.splits)
    from True Cons.prems obtain res crows' where
      res: "cluster_details_query conn lvl = Inr res" and
      cr: "export_cluster_details_rows conn levels = Inr crows'" and
      crows: "crows = res @ crows'"
      by (auto split: sum.splits)
    have IH: "sum_list (map post_count (filter (\<lambda>r. level r = L) crows'))
       = sum_list (map post_count (filter (\<lambda>r. level r = L) lrows'))"
      using Cons.IH [OF lr cr] .
    have lv: "\<forall>x\<in>set res. level x = lvl"
      using cluster_details_query_level [OF res] by blast
    show ?thesis
    proof (cases "lvl = L")
      case True
      with lv have "filter (\<lambda>r. level r = L) res = res"
        by (auto intro: filter_True)
      with True IH show ?thesis
        using cluster_details_query_count [OF res] level_overview_query_row [OF r]
        by (simp add: lrows crows)
    next
      case False
      with lv have "filter (\<lambda>r. level r = L) res = []"
        by (auto simp: filter_empty_conv)
      with False IH show ?thesis
        using level_overview_query_row [OF r]
        by (simp add: lrows crows)
    qed
  qed
qed

lemma count_list_filter_eq: "length (filter (\<lambda>x. x = a) xs) = count_list xs a"
  by (induction xs) auto

lemma single_level_row:
  assumes "export_level_overview_rows conn levels = Inr lrows"
    and "count_list levels L = 1"
    and "column_exists conn ''fellowship_mvp'' (id_col L)"
  shows "\<exists>r. filter (\<lambda>r. level r = L) lrows = [r]"
proof -
  have "length (filter (\<lambda>r. level r = L) lrows) = length (filter (\<lambda>l. l = L) (map level lrows))"
    by (simp add: filter_map comp_def)
  also have "\<dots> = length (filter (\<lambda>l. l = L)
      (filter (\<lambda>l. column_exists conn ''fellowship_mvp'' (id_col l)) levels))"
    using export_level_overview_levels [OF assms(1)] by simp
  also have "\<dots> = length (filter (\<lambda>l. l = L) levels)"
    using assms(3) by (auto intro!: arg_cong [where f = length] filter_cong)
  also have "\<dots> = 1"
    using assms(2) by (simp add: count_list_filter_eq)
  finally have "length (filter (\<lambda>r. level r = L) lrows) = 1" .
  then show ?thesis
    by (cases "filter (\<lambda>r. level r = L) lrows") auto
qed


lemma cluster_details_query_sorted:
  assumes "cluster_details_query conn lvl = Inr res"
  shows "sorted_wrt summary_order res"
proof -
  define h where "h = column_exists conn ''fellowship_mvp'' (name_col lvl)"
  define key where "key = (\<lambda>r::cluster_row. order_key r (cluster_id r))"
  from assms have res: "res = sort_key key
      (map (cluster_row_of lvl) (group_by_key (keyed h lvl (posts conn))))"
    by (auto simp: cluster_details_query_def Let_def h_def key_def split: option.splits)
  have "sorted (map key res)"
    unfolding res by (rule sorted_sort_key)
  then have "sorted_wrt (\<lambda>r s. key r \<le> key s) res"
    by (simp add: sorted_wrt_map)
  moreover have "key r \<le> key s \<Longrightarrow> summary_order r s" for r s
    by (auto simp: key_def order_key_def summary_order_def less_eq_prod_def)
  ultimately show ?thesis
    by (rule sorted_wrt_mono_rel [rotated]) blast
qed

lemma export_cluster_details_levels:
  "export_cluster_details_rows conn levels = Inr crows \<Longrightarrow> r \<in> set crows \<Longrightarrow>
     level r \<in> set levels \<and> column_exists conn ''fellowship_mvp'' (id_col (level r))"
proof (induction levels arbitrary: crows)
  case Nil
  then show ?case by simp
next
  case (Cons lvl levels)
  show ?case
  proof (cases "column_exists conn ''fellowship_mvp'' (id_col lvl)")
    case False
    with Cons show ?thesis by auto
  next
    case True
    from True Cons.prems(1) obtain res crows' where
      res: "cluster_details_query conn lvl = Inr res" and
      cr: "export_cluster_details_rows conn levels = Inr crows'" and
      crows: "crows = res @ crows'"
      by (auto split: sum.splits)
    from Cons.prems(2) crows consider "r \<in> set res" | "r \<in> set crows'" by auto
    then show ?thesis
    proof cases
      case 1
      with res True show ?thesis by (auto dest: cluster_details_query_level)
    next
      case 2
      with Cons.IH [OF cr] show ?thesis by auto
    qed
  qed
qed

lemma export_cluster_details_blocks:
  "export_cluster_details_rows conn levels = Inr crows \<Longrightarrow>
   column_exists conn ''fellowship_mvp'' (id_col L) \<Longrightarrow>
   cluster_details_query conn L = Inr res \<Longrightarrow>
     filter (\<lambda>r. level r = L) crows = concat (replicate (count_list levels L) res)"
proof (induction levels arbitrary: crows)
  case Nil
  then show ?case by simp
next
  case (Cons lvl levels)
  show ?case
  proof (cases "column_exists conn ''fellowship_mvp'' (id_col lvl)")
    case False
    with Cons.prems have "lvl \<noteq> L" by auto
    with False Cons show ?thesis by simp
  next
    case True
    from True Cons.prems(1) obtain res' crows' where
      res': "cluster_details_query conn lvl = Inr res'" and
      cr: "export_cluster_details_rows conn levels = Inr crows'" and
      crows: "crows = res' @ crows'"
      by (auto split: sum.splits)
    have IH: "filter (\<lambda>r. level r = L) crows' = concat (replicate (count_list levels L) res)"
      using Cons.IH [OF cr Cons.prems(2,3)] .
    have lv: "\<forall>x\<in>set res'. level x = lvl"
      using cluster_details_query_level [OF res'] by blast
    show ?thesis
    proof (cases "lvl = L")
      case True
      with res' Cons.prems(3) have "res' = res" by simp
      moreover from lv True have "filter (\<lambda>r. level r = L) res' = res'"
        by (auto intro: filter_True)
      ultimately show ?thesis using True IH by (simp add: crows)
    next
      case False
      with lv have "filter (\<lambda>r. level r = L) res' = []"
        by (auto simp: filter_empty_conv)
      with False IH show ?thesis by (simp add: crows)
    qed
  qed
qed





lemma case_label_sum_bounds:
  "0 \<le> sum_list (map (case_label a) ps)
   \<and> (a \<noteq> b \<longrightarrow> sum_list (map (case_label a) ps) + sum_list (map (case_label b) ps)
          \<le> int (length ps))"
  by (induction ps) (auto simp: case_label_def)

lemma aggregates_counts_bounded:
  assumes "ps \<noteq> []"
  shows "\<exists>m p. meta_posts (aggregates lvl ps) = Some m \<and> proper_posts (aggregates lvl ps) = Some p
           \<and> 0 \<le> m \<and> 0 \<le> p \<and> m + p \<le> post_count (aggregates lvl ps)"
proof -
  have "''EA_META'' \<noteq> ''EA_PROPER''" by simp
  then have "sum_list (map (case_label ''EA_META'') ps) + sum_list (map (case_label ''EA_PROPER'') ps)
      \<le> int (length ps)"
    using case_label_sum_bounds [of "''EA_META''" ps "''EA_PROPER''"] by blast
  moreover have "0 \<le> sum_list (map (case_label ''EA_META'') ps)"
    "0 \<le> sum_list (map (case_label ''EA_PROPER'') ps)"
    using case_label_sum_bounds by blast+
  ultimately show ?thesis
    using assms by (simp add: aggregates_def sql_sum_def sql_count_def)
qed

lemma group_by_key_nonempty: "g \<in> set (group_by_key kps) \<Longrightarrow> snd g \<noteq> []"
  by (fastforce simp: group_by_key_def filter_empty_conv)

lemma cluster_row_of_counts:
  "meta_posts (cluster_row_of lvl g) = meta_posts (aggregates lvl (snd g))
   \<and> proper_posts (cluster_row_of lvl g) = proper_posts (aggregates lvl (snd g))
   \<and> post_count (cluster_row_of lvl g) = post_count (aggregates lvl (snd g))"
  by (simp add: cluster_row_of_def aggregates_def level_row.defs)

lemma cluster_details_query_bounded:
  assumes "cluster_details_query conn lvl = Inr res" and "r \<in> set res"
  shows "\<exists>m p. meta_posts r = Some m \<and> proper_posts r = Some p
           \<and> 0 \<le> m \<and> 0 \<le> p \<and> m + p \<le> post_count r"
proof -
  define h where "h = column_exists conn ''fellowship_mvp'' (name_col lvl)"
  from assms(1) have "res = sort_key (\<lambda>r. order_key r (cluster_id r))
      (map (cluster_row_of lvl) (group_by_key (keyed h lvl (posts conn))))"
    by (auto simp: cluster_details_query_def Let_def h_def split: option.splits)
  with assms(2) obtain g where g: "g \<in> set (group_by_key (keyed h lvl (posts conn)))"
    and r: "r = cluster_row_of lvl g"
    by auto
  from g have "snd g \<noteq> []" by (rule group_by_key_nonempty)
  from aggregates_counts_bounded [OF this, of lvl] show ?thesis
    unfolding r using cluster_row_of_counts [of lvl g] by simp
qed

lemma level_overview_query_bounded:
  assumes "level_overview_query conn lvl = Inr r"
  shows "(0 < post_count r \<longrightarrow> (\<exists>m p. meta_posts r = Some m \<and> proper_posts r = Some p
            \<and> 0 \<le> m \<and> 0 \<le> p \<and> m + p \<le> post_count r))
       \<and> (post_count r = 0 \<longrightarrow> meta_posts r = None \<and> proper_posts r = None)"
proof -
  define ps where "ps = filter (\<lambda>p. ea_cluster p lvl \<noteq> None) (posts conn)"
  from assms have r: "r = aggregates lvl ps"
    by (auto simp: level_overview_query_def ps_def split: option.splits)
  show ?thesis
  proof (cases "ps = []")
    case True
    then show ?thesis by (simp add: r aggregates_def sql_sum_def sql_count_def)
  next
    case False
    from aggregates_counts_bounded [OF this, of lvl] False show ?thesis
      by (auto simp: r aggregates_def sql_count_def)
  qed
qed

lemma desc_nulls_last_le:
  fixes a b :: "'a::linordered_idom option"
  shows "desc_nulls_last a \<le> desc_nulls_last b \<Longrightarrow> desc_order a b"
  by (auto simp: desc_nulls_last_def desc_order_def less_eq_prod_def split: option.splits)

lemma sort_key_desc_sorted:
  fixes col :: "post \<Rightarrow> 'a::linordered_idom option"
  shows "sorted_wrt (\<lambda>p q. desc_order (col p) (col q)) (sort_key (\<lambda>p. desc_nulls_last (col p)) ps)"
proof -
  have "sorted (map (\<lambda>p. desc_nulls_last (col p)) (sort_key (\<lambda>p. desc_nulls_last (col p)) ps))"
    by (rule sorted_sort_key)
  then have "sorted_wrt (\<lambda>p q. desc_nulls_last (col p) \<le> desc_nulls_last (col q))
      (sort_key (\<lambda>p. desc_nulls_last (col p)) ps)"
    by (simp add: sorted_wrt_map)
  then show ?thesis
    by (rule sorted_wrt_mono_rel [rotated]) (blast intro: desc_nulls_last_le)
qed

lemma cluster_posts_query_rows:
  assumes "cluster_posts_query conn lvl cid sort_by = Inr rows"
  shows "\<exists>all. mset all = mset (filter (\<lambda>p. ea_cluster p lvl = Some cid) (posts conn))
           \<and> sorted_wrt (fetch_order sort_by) all \<and> rows = take 500 all"
proof (cases "sort_by = ''score''")
  case True
  let ?all = "sort_key (\<lambda>p. desc_nulls_last (score p))
                (filter (\<lambda>p. ea_cluster p lvl = Some cid) (posts conn))"
  from assms True have "rows = take 500 ?all"
    by (auto simp: cluster_posts_query_def split: option.splits)
  moreover have "sorted_wrt (fetch_order sort_by) ?all"
    using sort_key_desc_sorted [of score] True by (simp add: fetch_order_def [abs_def])
  ultimately show ?thesis by (intro exI [of _ ?all]) simp
next
  case False
  let ?all = "sort_key (\<lambda>p. desc_nulls_last (posted_at p))
                (filter (\<lambda>p. ea_cluster p lvl = Some cid) (posts conn))"
  from assms False have "rows = take 500 ?all"
    by (auto simp: cluster_posts_query_def split: option.splits)
  moreover have "sorted_wrt (fetch_order sort_by) ?all"
    using sort_key_desc_sorted [of posted_at] False by (simp add: fetch_order_def [abs_def])
  ultimately show ?thesis by (intro exI [of _ ?all]) simp
qed

lemma not_isl_collapse: "\<not> isl x \<Longrightarrow> x = Inr (projr x)"
  by (cases x) auto


section \<open>Facts about the steps of main\<close>

lemma fst_and_then:
  "fst (and_then r f) = (case fst r of Some e \<Rightarrow> Some e | None \<Rightarrow> fst (f (snd r)))"
  by (cases r) (auto simp: and_then_def split: option.splits)

lemma snd_and_then:
  "snd (and_then r f) = (case fst r of Some e \<Rightarrow> snd r | None \<Rightarrow> snd (f (snd r)))"
  by (cases r) (auto simp: and_then_def split: option.splits)

lemma artifacts_emit: "artifacts (emit out w) = artifacts w"
  by (simp add: artifacts_def emit_def)

lemma console_emit: "console (emit out w) = console w @ out"
  by (simp add: emit_def)

lemma check_columns_None: "check_columns conn cols = None \<longleftrightarrow> set cols \<subseteq> set (columns conn)"
  by (auto simp: check_columns_def find_None_iff)

text \<open>The statement of \<open>summarize_level\<close> can only miss the column \<open>base_score\<close>.\<close>

lemma summarize_level_fails_iff:
  "isl (summarize_level conn lvl cf)
     \<longleftrightarrow> column_exists conn ''fellowship_mvp'' (id_col lvl) \<and> ''base_score'' \<notin> set (columns conn)"
  by (auto simp: summarize_level_def Let_def check_columns_def column_exists_def find_None_iff
        split: option.splits)

lemma summarize_level_error:
  "summarize_level conn lvl cf = Inl e \<Longrightarrow> e = UndefinedColumn ''base_score''"
  by (auto simp: summarize_level_def Let_def check_columns_def column_exists_def
        split: option.splits if_splits)

lemma summarize_level_titles:
  "summarize_level conn lvl cf = Inr out \<Longrightarrow> SectionTitle L t \<in> set out \<Longrightarrow>
     L = lvl \<and> column_exists conn ''fellowship_mvp'' (id_col lvl)"
  by (auto simp: summarize_level_def Let_def cluster_line_def split: option.splits if_splits)

lemma summarize_levels_fst:
  "fst (summarize_levels conn levels cf w)
     = (if (\<exists>l\<in>set levels. column_exists conn ''fellowship_mvp'' (id_col l))
           \<and> ''base_score'' \<notin> set (columns conn)
        then Some (UndefinedColumn ''base_score'') else None)"
proof (induction levels arbitrary: w)
  case Nil
  then show ?case by simp
next
  case (Cons lvl levels)
  show ?case
  proof (cases "summarize_level conn lvl cf")
    case (Inl e)
    then have "isl (summarize_level conn lvl cf)" by simp
    then have "column_exists conn ''fellowship_mvp'' (id_col lvl)
        \<and> ''base_score'' \<notin> set (columns conn)"
      by (simp add: summarize_level_fails_iff)
    with Inl summarize_level_error [OF Inl] show ?thesis by auto
  next
    case (Inr out)
    then have "\<not> isl (summarize_level conn lvl cf)" by simp
    then have "\<not> (column_exists conn ''fellowship_mvp'' (id_col lvl)
        \<and> ''base_score'' \<notin> set (columns conn))"
      by (simp add: summarize_level_fails_iff)
    with Inr Cons.IH [of "emit out w"] show ?thesis by auto
  qed
qed

lemma summarize_levels_artifacts:
  "artifacts (snd (summarize_levels conn levels cf w)) = artifacts w"
  by (induction levels arbitrary: w) (auto simp: artifacts_emit split: sum.splits)

lemma summarize_levels_titles:
  "SectionTitle L t \<in> set (console (snd (summarize_levels conn levels cf w))) \<Longrightarrow>
     SectionTitle L t \<in> set (console w)
     \<or> (L \<in> set levels \<and> column_exists conn ''fellowship_mvp'' (id_col L))"
proof (induction levels arbitrary: w)
  case Nil
  then show ?case by simp
next
  case (Cons lvl levels)
  show ?case
  proof (cases "summarize_level conn lvl cf")
    case (Inl e)
    with Cons.prems show ?thesis by simp
  next
    case (Inr out)
    with Cons.prems have "SectionTitle L t \<in> set (console (snd (summarize_levels conn levels cf (emit out w))))"
      by simp
    from Cons.IH [OF this] show ?thesis
      using summarize_level_titles [OF Inr] by (auto simp: console_emit)
  qed
qed

lemma breakdown_fst:
  "fst (breakdown conn levels vals w)
     = (if vals \<noteq> [] \<and> (\<exists>l\<in>set levels. column_exists conn ''fellowship_mvp'' (id_col l))
           \<and> ''base_score'' \<notin> set (columns conn)
        then Some (UndefinedColumn ''base_score'') else None)"
  by (induction vals arbitrary: w) (auto simp: fst_and_then summarize_levels_fst)

lemma breakdown_artifacts:
  "artifacts (snd (breakdown conn levels vals w)) = artifacts w"
  by (induction vals arbitrary: w)
     (auto simp: snd_and_then summarize_levels_artifacts split: option.splits)

lemma breakdown_titles:
  "SectionTitle L t \<in> set (console (snd (breakdown conn levels vals w))) \<Longrightarrow>
     SectionTitle L t \<in> set (console w)
     \<or> (L \<in> set levels \<and> column_exists conn ''fellowship_mvp'' (id_col L))"
proof (induction vals arbitrary: w)
  case Nil
  then show ?case by simp
next
  case (Cons cls vals)
  show ?case
  proof (cases "fst (summarize_levels conn levels (Some cls) w)")
    case None
    with Cons.prems have "SectionTitle L t \<in> set (console (snd (breakdown conn levels vals
        (snd (summarize_levels conn levels (Some cls) w)))))"
      by (simp add: snd_and_then)
    from Cons.IH [OF this] show ?thesis
      using summarize_levels_titles by blast
  next
    case (Some e)
    with Cons.prems show ?thesis
      using summarize_levels_titles by (auto simp: snd_and_then)
  qed
qed

lemma class_summary_fst:
  "fst (class_summary conn w) = fst (class_summary conn w')"
  by (auto simp: class_summary_def Let_def split: option.splits)

lemma class_summary_artifacts:
  "artifacts (snd (class_summary conn w)) = artifacts w"
  by (auto simp: class_summary_def Let_def artifacts_emit split: option.splits)

lemma class_summary_titles:
  "SectionTitle L t \<in> set (console (snd (class_summary conn w))) \<Longrightarrow>
     SectionTitle L t \<in> set (console w)"
  by (auto simp: class_summary_def Let_def console_emit class_line_def
        split: option.splits if_splits)

lemma export_level_overview_csv_fst:
  "fst (export_level_overview_csv conn levels w)
     = (case export_level_overview_rows conn levels of Inl e \<Rightarrow> Some e | Inr rows \<Rightarrow> None)"
  by (simp add: export_level_overview_csv_def split: sum.splits)

lemma export_level_overview_csv_artifacts:
  "artifacts (snd (export_level_overview_csv conn levels w))
     = (case export_level_overview_rows conn levels of
          Inl e \<Rightarrow> artifacts w
        | Inr rows \<Rightarrow> (Some rows, snd (artifacts w)))"
  by (simp add: export_level_overview_csv_def artifacts_def split: sum.splits)

lemma export_level_overview_csv_console:
  "console (snd (export_level_overview_csv conn levels w)) = console w"
  by (simp add: export_level_overview_csv_def split: sum.splits)

lemma export_cluster_details_csv_fst:
  "fst (export_cluster_details_csv conn levels w)
     = (case export_cluster_details_rows conn levels of Inl e \<Rightarrow> Some e | Inr rows \<Rightarrow> None)"
  by (simp add: export_cluster_details_csv_def split: sum.splits)

lemma export_cluster_details_csv_artifacts:
  "artifacts (snd (export_cluster_details_csv conn levels w))
     = (case export_cluster_details_rows conn levels of
          Inl e \<Rightarrow> artifacts w
        | Inr rows \<Rightarrow> (fst (artifacts w), Some rows))"
  by (simp add: export_cluster_details_csv_def artifacts_def split: sum.splits)

lemma export_cluster_details_csv_console:
  "console (snd (export_cluster_details_csv conn levels w)) = console w"
  by (simp add: export_cluster_details_csv_def split: sum.splits)

text \<open>What a run leaves of the two artifacts: a function of the connection, the levels
  and the artifacts it found.\<close>

lemma run_artifacts:
  "artifacts (snd (run conn levels cf w))
     = (case fst (class_summary conn w) of
          Some e \<Rightarrow> artifacts w
        | None \<Rightarrow>
            if (\<exists>l\<in>set levels. column_exists conn ''fellowship_mvp'' (id_col l))
               \<and> ''base_score'' \<notin> set (columns conn)
            then artifacts w
            else (case export_level_overview_rows conn levels of
                    Inl e \<Rightarrow> artifacts w
                  | Inr lrows \<Rightarrow>
                      (case export_cluster_details_rows conn levels of
                         Inl e \<Rightarrow> (Some lrows, snd (artifacts w))
                       | Inr crows \<Rightarrow> (Some lrows, Some crows))))"
  unfolding run_def
  by (simp add: snd_and_then fst_and_then Let_def summarize_levels_fst
        summarize_levels_artifacts class_summary_artifacts artifacts_emit
        export_level_overview_csv_fst export_level_overview_csv_artifacts
        export_cluster_details_csv_fst export_cluster_details_csv_artifacts
        breakdown_artifacts
        split: option.splits sum.splits)

lemma run_fst:
  "fst (run conn levels cf w)
     = (case fst (class_summary conn w) of
          Some e \<Rightarrow> Some e
        | None \<Rightarrow>
            if (\<exists>l\<in>set levels. column_exists conn ''fellowship_mvp'' (id_col l))
               \<and> ''base_score'' \<notin> set (columns conn)
            then Some (UndefinedColumn ''base_score'')
            else (case export_level_overview_rows conn levels of
                    Inl e \<Rightarrow> Some e
                  | Inr lrows \<Rightarrow>
                      (case export_cluster_details_rows conn levels of
                         Inl e \<Rightarrow> Some e
                       | Inr crows \<Rightarrow> None)))"
  unfolding run_def
  by (simp add: snd_and_then fst_and_then Let_def summarize_levels_fst
        export_level_overview_csv_fst export_cluster_details_csv_fst breakdown_fst
        split: option.splits sum.splits)

lemma snd_and_then_induct:
  fixes r :: "error option \<times> world"
  shows "P (snd r) \<Longrightarrow> (\<And>w. P w \<Longrightarrow> P (snd (f w))) \<Longrightarrow> P (snd (and_then r f))"
  by (cases "fst r") (simp_all add: snd_and_then)

lemma run_titles:
  assumes "SectionTitle L t \<in> set (console (snd (run conn levels cf w)))"
  shows "SectionTitle L t \<in> set (console w)
         \<or> (L \<in> set levels \<and> column_exists conn ''fellowship_mvp'' (id_col L))"
proof -
  define X where "X \<longleftrightarrow> SectionTitle L t \<in> set (console w)
      \<or> (L \<in> set levels \<and> column_exists conn ''fellowship_mvp'' (id_col L))"
  define R where "R = (\<lambda>v::world. SectionTitle L t \<in> set (console v) \<longrightarrow> X)"
  have emit_R: "R v \<Longrightarrow> SectionTitle L t \<notin> set out \<Longrightarrow> R (emit out v)" for v out
    by (auto simp: R_def console_emit)
  have lv_R: "R v \<Longrightarrow> R (snd (summarize_levels conn levels f v))" for v f
    using summarize_levels_titles [of L t conn levels f v] by (auto simp: R_def X_def)
  have bd_R: "R v \<Longrightarrow> R (snd (breakdown conn levels vals v))" for v vals
    using breakdown_titles [of L t conn levels vals v] by (auto simp: R_def X_def)
  have "R w" by (simp add: R_def X_def)
  then have "R (snd (class_summary conn w))"
    using class_summary_titles [of L t conn w] by (auto simp: R_def)
  then have "R (snd (run conn levels cf w))"
    unfolding run_def
  proof (rule snd_and_then_induct)
    fix w1 assume "R w1"
    then have "R (emit [Header ''EA Forum Cluster Score Summary''] w1)"
      by (rule emit_R) simp
    then have "R (snd (summarize_levels conn levels cf
        (emit [Header ''EA Forum Cluster Score Summary''] w1)))"
      by (rule lv_R)
    then show "R (snd (and_then (summarize_levels conn levels cf
          (emit [Header ''EA Forum Cluster Score Summary''] w1))
        (\<lambda>w. and_then (export_level_overview_csv conn levels w)
          (\<lambda>w. and_then (export_cluster_details_csv conn levels w)
            (\<lambda>w. let w1 = emit [Exported ''cluster_level_summary.csv'',
                                Exported ''cluster_cluster_summary.csv''] w;
                     cv = classification_values conn
                 in if fst cv \<and> \<not> truthy cf
                    then breakdown conn levels (snd cv)
                           (emit [Header ''Breakdown by EA Classification''] w1)
                    else (None, w1))))))"
    proof (rule snd_and_then_induct)
      fix w2 assume "R w2"
      then have "R (snd (export_level_overview_csv conn levels w2))"
        by (simp add: R_def export_level_overview_csv_console)
      then show "R (snd (and_then (export_level_overview_csv conn levels w2)
          (\<lambda>w. and_then (export_cluster_details_csv conn levels w)
            (\<lambda>w. let w1 = emit [Exported ''cluster_level_summary.csv'',
                                Exported ''cluster_cluster_summary.csv''] w;
                     cv = classification_values conn
                 in if fst cv \<and> \<not> truthy cf
                    then breakdown conn levels (snd cv)
                           (emit [Header ''Breakdown by EA Classification''] w1)
                    else (None, w1)))))"
      proof (rule snd_and_then_induct)
        fix w3 assume "R w3"
        then have "R (snd (export_cluster_details_csv conn levels w3))"
          by (simp add: R_def export_cluster_details_csv_console)
        then show "R (snd (and_then (export_cluster_details_csv conn levels w3)
            (\<lambda>w. let w1 = emit [Exported ''cluster_level_summary.csv'',
                                Exported ''cluster_cluster_summary.csv''] w;
                     cv = classification_values conn
                 in if fst cv \<and> \<not> truthy cf
                    then breakdown conn levels (snd cv)
                           (emit [Header ''Breakdown by EA Classification''] w1)
                    else (None, w1))))"
        proof (rule snd_and_then_induct)
          fix w4 assume "R w4"
          then have e: "R (emit [Exported ''cluster_level_summary.csv'',
              Exported ''cluster_cluster_summary.csv''] w4)"
            by (rule emit_R) simp
          then have "R (emit [Header ''Breakdown by EA Classification'']
              (emit [Exported ''cluster_level_summary.csv'',
                     Exported ''cluster_cluster_summary.csv''] w4))"
            by (rule emit_R) simp
          with e show "R (snd (let w1 = emit [Exported ''cluster_level_summary.csv'',
                                Exported ''cluster_cluster_summary.csv''] w4;
                     cv = classification_values conn
                 in if fst cv \<and> \<not> truthy cf
                    then breakdown conn levels (snd cv)
                           (emit [Header ''Breakdown by EA Classification''] w1)
                    else (None, w1)))"
            by (simp add: Let_def bd_R)
        qed
      qed
    qed
  qed
  with assms show ?thesis by (simp add: R_def X_def)
qed

lemma export_level_overview_rows_skip:
  "\<not> column_exists conn ''fellowship_mvp'' (id_col L) \<Longrightarrow>
     export_level_overview_rows conn levels = export_level_overview_rows conn (removeAll L levels)"
proof (induction levels)
  case Nil
  then show ?case by simp
next
  case (Cons a levels)
  from Cons.IH [OF Cons.prems] Cons.prems show ?case
    by (auto split: sum.splits)
qed

lemma export_cluster_details_rows_skip:
  "\<not> column_exists conn ''fellowship_mvp'' (id_col L) \<Longrightarrow>
     export_cluster_details_rows conn levels = export_cluster_details_rows conn (removeAll L levels)"
proof (induction levels)
  case Nil
  then show ?case by simp
next
  case (Cons a levels)
  from Cons.IH [OF Cons.prems] Cons.prems show ?case
    by (auto split: sum.splits)
qed

lemma export_level_overview_rows_levels:
  "export_level_overview_rows conn levels = Inr lrows \<Longrightarrow> r \<in> set lrows \<Longrightarrow>
     column_exists conn ''fellowship_mvp'' (id_col (level r))"
proof -
  assume a: "export_level_overview_rows conn levels = Inr lrows" and r: "r \<in> set lrows"
  from r have "level r \<in> set (map level lrows)" by simp
  then show ?thesis
    unfolding export_level_overview_levels [OF a] by simp
qed


section \<open>The claims\<close>

text \<open>
  Claim C1 does not hold for a level that is listed twice. With the levels 5, 5 the
  level summary of the example table holds two rows for level 5, each with post count 3,
  and the cluster summary holds the two cluster rows of level 5 twice: their post counts
  add up to 6.
\<close>

theorem duplicate_level_doubles_cluster_sum:
  "\<not> isl (export_level_overview_rows ex_db [5, 5])
   \<and> \<not> isl (export_cluster_details_rows ex_db [5, 5])
   \<and> map level (projr (export_level_overview_rows ex_db [5, 5])) = [5, 5]
   \<and> map post_count (projr (export_level_overview_rows ex_db [5, 5])) = [3, 3]
   \<and> map level (projr (export_cluster_details_rows ex_db [5, 5])) = [5, 5, 5, 5]
   \<and> sum_list (map post_count (projr (export_cluster_details_rows ex_db [5, 5]))) = 6"
  by code_simp

text \<open>
  Claim C1 as amended. For every level \<open>L\<close> that is listed exactly once among the levels
  and has its column, the level summary holds exactly one row for \<open>L\<close>, and its post
  count is the sum of the post counts of the cluster-summary rows with level \<open>L\<close>. For
  any listing, the post counts of the cluster-summary rows with level \<open>L\<close> add up to the
  post counts of the level-summary rows with level \<open>L\<close>.
\<close>

theorem cluster_counts_sum_to_level_count:
  assumes "export_level_overview_rows conn levels = Inr lrows"
    and "export_cluster_details_rows conn levels = Inr crows"
  shows "sum_list (map post_count (filter (\<lambda>r. level r = L) crows))
           = sum_list (map post_count (filter (\<lambda>r. level r = L) lrows))
         \<and> (count_list levels L = 1 \<and> column_exists conn ''fellowship_mvp'' (id_col L)
              \<longrightarrow> (\<exists>r. filter (\<lambda>r. level r = L) lrows = [r]
                        \<and> post_count r
                            = sum_list (map post_count (filter (\<lambda>r. level r = L) crows))))"
proof (intro conjI impI)
  show eq: "sum_list (map post_count (filter (\<lambda>r. level r = L) crows))
      = sum_list (map post_count (filter (\<lambda>r. level r = L) lrows))"
    using assms by (rule export_counts_agree)
  assume "count_list levels L = 1 \<and> column_exists conn ''fellowship_mvp'' (id_col L)"
  then obtain r where r: "filter (\<lambda>r. level r = L) lrows = [r]"
    using single_level_row [OF assms(1)] by blast
  with eq show "\<exists>r. filter (\<lambda>r. level r = L) lrows = [r]
      \<and> post_count r = sum_list (map post_count (filter (\<lambda>r. level r = L) crows))"
    by simp
qed

theorem cluster_counts_sum_to_level_count_witness:
  "export_level_overview_rows ex_db [5, 12, 30]
     = Inr (projr (export_level_overview_rows ex_db [5, 12, 30]))
   \<and> export_cluster_details_rows ex_db [5, 12, 30]
     = Inr (projr (export_cluster_details_rows ex_db [5, 12, 30]))
   \<and> count_list [5, 12, 30] (5::int) = 1
   \<and> column_exists ex_db ''fellowship_mvp'' (id_col 5)
   \<and> sum_list (map post_count
        (filter (\<lambda>r. level r = 5) (projr (export_cluster_details_rows ex_db [5, 12, 30])))) = 3
   \<and> (\<exists>r. filter (\<lambda>r. level r = 5) (projr (export_level_overview_rows ex_db [5, 12, 30])) = [r]
          \<and> post_count r = 3)"
proof -
  have h1: "export_level_overview_rows ex_db [5, 12, 30]
      = Inr (projr (export_level_overview_rows ex_db [5, 12, 30]))"
    by code_simp
  have h2: "export_cluster_details_rows ex_db [5, 12, 30]
      = Inr (projr (export_cluster_details_rows ex_db [5, 12, 30]))"
    by code_simp
  have h3: "count_list [5, 12, 30] (5::int) = 1"
    by simp
  have h4: "column_exists ex_db ''fellowship_mvp'' (id_col 5)"
    by code_simp
  have h5: "sum_list (map post_count
      (filter (\<lambda>r. level r = 5) (projr (export_cluster_details_rows ex_db [5, 12, 30])))) = 3"
    by code_simp
  from cluster_counts_sum_to_level_count [OF h1 h2, of 5] h3 h4
  have "\<exists>r. filter (\<lambda>r. level r = 5) (projr (export_level_overview_rows ex_db [5, 12, 30])) = [r]
      \<and> post_count r = sum_list (map post_count
            (filter (\<lambda>r. level r = 5) (projr (export_cluster_details_rows ex_db [5, 12, 30]))))"
    by blast
  then have h6: "\<exists>r. filter (\<lambda>r. level r = 5)
      (projr (export_level_overview_rows ex_db [5, 12, 30])) = [r] \<and> post_count r = 3"
    unfolding h5 .
  show ?thesis
    by (intro conjI) (fact h1 h2 h3 h4 h5 h6)+
qed

text \<open>
  Claim C6. When \<^verbatim>\<open>connect_db()\<close> raises, \<^verbatim>\<open>main\<close> ends with the connection failure
  and has changed nothing: neither CSV artifact is created or modified (and nothing is
  printed), since both exports run only after the connection is open.
\<close>

theorem connection_failure_writes_nothing:
  "main env None w = (Some ConnectionFailure, w)"
  by (simp add: main_def)

text \<open>
  Claim C4 does not hold for a level that is listed twice. With the levels 5, 5 the
  rows of level 5 in the cluster summary have the post counts 2, 1, 2, 1: the sorted
  rows of the statement, appended once per listing.
\<close>

theorem duplicate_level_rows_not_sorted:
  "\<not> isl (export_cluster_details_rows ex_db [5, 5])
   \<and> map level (projr (export_cluster_details_rows ex_db [5, 5])) = [5, 5, 5, 5]
   \<and> map post_count (projr (export_cluster_details_rows ex_db [5, 5])) = [2, 1, 2, 1]
   \<and> \<not> sorted_wrt summary_order (projr (export_cluster_details_rows ex_db [5, 5]))"
  by code_simp

text \<open>
  Claim C4 as amended. The rows that one execution of the per-level statement of
  \<^verbatim>\<open>export_cluster_details_csv\<close> returns are in \<open>summary_order\<close>: post count descending,
  equal post counts by cluster id ascending. The rows of the artifact with level \<open>L\<close>
  are these rows, once per occurrence of \<open>L\<close> among the levels; so for every level that
  is not listed twice the artifact's rows for it are sorted.
\<close>

theorem cluster_rows_sorted:
  assumes "export_cluster_details_rows conn levels = Inr crows"
  shows "(count_list levels L \<le> 1 \<longrightarrow> sorted_wrt summary_order (filter (\<lambda>r. level r = L) crows))
       \<and> (\<forall>res. column_exists conn ''fellowship_mvp'' (id_col L)
                 \<and> cluster_details_query conn L = Inr res
            \<longrightarrow> sorted_wrt summary_order res
                \<and> filter (\<lambda>r. level r = L) crows = concat (replicate (count_list levels L) res))"
proof (intro conjI impI allI)
  fix res
  assume a: "column_exists conn ''fellowship_mvp'' (id_col L) \<and> cluster_details_query conn L = Inr res"
  then show "sorted_wrt summary_order res"
    by (auto intro: cluster_details_query_sorted)
  from a show "filter (\<lambda>r. level r = L) crows = concat (replicate (count_list levels L) res)"
    using export_cluster_details_blocks [OF assms] by blast
next
  assume c: "count_list levels L \<le> 1"
  show "sorted_wrt summary_order (filter (\<lambda>r. level r = L) crows)"
  proof (cases "filter (\<lambda>r. level r = L) crows = []")
    case True
    then show ?thesis by simp
  next
    case False
    then obtain r where r: "r \<in> set crows" "level r = L"
      by (auto simp: filter_empty_conv)
    from export_cluster_details_levels [OF assms r(1)] r(2)
    have L: "L \<in> set levels" and col: "column_exists conn ''fellowship_mvp'' (id_col L)"
      by auto
    from L have "count_list levels L > 0"
      by (induction levels) auto
    with c have c1: "count_list levels L = 1" by simp
    have "\<exists>res. cluster_details_query conn L = Inr res"
      using assms L col
    proof (induction levels arbitrary: crows)
      case Nil
      then show ?case by simp
    next
      case (Cons a levels)
      then show ?case
        by (cases "a = L") (auto split: if_splits sum.splits)
    qed
    then obtain res where res: "cluster_details_query conn L = Inr res" ..
    from export_cluster_details_blocks [OF assms col res] c1
    have "filter (\<lambda>r. level r = L) crows = res" by simp
    with cluster_details_query_sorted [OF res] show ?thesis by simp
  qed
qed

theorem cluster_rows_sorted_witness:
  "export_cluster_details_rows ex_db [5, 12, 30]
     = Inr (projr (export_cluster_details_rows ex_db [5, 12, 30]))
   \<and> count_list [5, 12, 30] (5::int) \<le> 1
   \<and> map (\<lambda>r. (post_count r, cluster_id r))
        (filter (\<lambda>r. level r = 5) (projr (export_cluster_details_rows ex_db [5, 12, 30])))
       = [(2, 1), (1, 2)]
   \<and> sorted_wrt summary_order
        (filter (\<lambda>r. level r = 5) (projr (export_cluster_details_rows ex_db [5, 12, 30])))"
proof -
  have h1: "export_cluster_details_rows ex_db [5, 12, 30]
      = Inr (projr (export_cluster_details_rows ex_db [5, 12, 30]))"
    by code_simp
  have h2: "count_list [5, 12, 30] (5::int) \<le> 1"
    by simp
  have h3: "map (\<lambda>r. (post_count r, cluster_id r))
      (filter (\<lambda>r. level r = 5) (projr (export_cluster_details_rows ex_db [5, 12, 30])))
     = [(2, 1), (1, 2)]"
    by code_simp
  from cluster_rows_sorted [OF h1, of 5] h2
  have h4: "sorted_wrt summary_order
      (filter (\<lambda>r. level r = 5) (projr (export_cluster_details_rows ex_db [5, 12, 30])))"
    by blast
  show ?thesis
    by (intro conjI) (fact h1 h2 h3 h4)+
qed



text \<open>
  Claim C5 does not hold: a level-summary file that exists and has no data rows does not
  block the viewer. With the cluster summary of level 5 of the example table, the guard
  of line 191 skips the overview and the page is rendered with the section of level 5.
\<close>

theorem viewer_renders_without_overview:
  "\<not> isl (export_cluster_details_rows ex_db [5])
   \<and> viewer_main (Some []) (Some (projr (export_cluster_details_rows ex_db [5])))
       = Page None [(5, projr (export_cluster_details_rows ex_db [5]))]
   \<and> viewer_main (Some []) (Some (projr (export_cluster_details_rows ex_db [5]))) \<noteq> Blocked"
  by code_simp

text \<open>
  Claim C5 as amended. The viewer shows the blocking error exactly when one of the two
  files does not exist. With a level-summary file that exists and has no data rows it
  skips the overview and goes on to the sections of the cluster-summary file, one per
  level: it renders them all, unless one of them raises (every average base score, or
  every base score deviation, of a level empty, or one of them beyond 64 bits), which
  ends the script with that exception.
\<close>

theorem viewer_blocks_only_on_missing_file:
  "(viewer_main level_file cluster_file = Blocked) = (level_file = None \<or> cluster_file = None)
   \<and> viewer_main (Some []) (Some cluster_df)
       = (if list_ex (\<lambda>sec. section_raises (snd sec)) (level_sections cluster_df) then Crashed
          else Page None (level_sections cluster_df))"
  by (auto simp: viewer_main_def render_sections_def split: option.splits list.splits)

text \<open>
  Claim C2 fails on the code. In the example table the second and third post have a
  level-5 cluster and no level-12 cluster, so the two rows of the level summary differ in
  all three totals, and the viewer's overview, read from the first row, shows the totals
  of level 5 only.
\<close>

theorem level_totals_differ_across_levels:
  "map (\<lambda>r. (level r, post_count r, meta_posts r, proper_posts r))
     (projr (export_level_overview_rows ex_db [5, 12]))
     = [(5, 3, Some 1, Some 2), (12, 1, Some 1, Some 0)]
   \<and> viewer_main (Some (projr (export_level_overview_rows ex_db [5, 12]))) (Some [])
     = Page (Some \<lparr> total_posts = 3, shown_meta_posts = 1, shown_proper_posts = 2 \<rparr>) []"
  by code_simp

text \<open>
  Claim C3 fails on the code for one kind of row. Over a level whose column exists and
  holds no cluster id, \<^verbatim>\<open>COUNT(*)\<close> is 0 and both \<^verbatim>\<open>SUM(CASE ...)\<close> are NULL: the
  level-summary row has a post count and no label counts, and the viewer's \<^verbatim>\<open>int(...)\<close>
  of the empty cell raises.
\<close>

theorem empty_level_row_has_null_counts:
  "export_level_overview_rows empty_db [5]
     = Inr [\<lparr> level = 5, post_count = 0, meta_posts = None, proper_posts = None,
              avg_base_score = None, stddev_base_score = None,
              avg_score = None, stddev_score = None \<rparr>]
   \<and> viewer_main (Some (projr (export_level_overview_rows empty_db [5]))) (Some []) = Crashed"
  by code_simp

text \<open>
  Claim C7 does not hold when the formatting of the fetched rows raises. The table
  \<open>huge_db\<close> holds one post of cluster 1 at level 5 whose base score is \<open>10^19\<close>: the
  statement returns it, the cast of the base scores to \<^verbatim>\<open>Int64\<close> raises inside the
  \<^verbatim>\<open>try\<close>, and the function returns the empty result although the data source is
  reachable and a post matches.
\<close>

theorem fetch_drops_rows_on_formatting_error:
  "connect_db huge_env \<noteq> None
   \<and> map post_id (projr (cluster_posts_query huge_db 5 1 ''score'')) = [''h'']
   \<and> \<not> isl (cluster_posts_query huge_db 5 1 ''score'')
   \<and> fetch_cluster_posts huge_env 5 1 ''score'' = []"
  by code_simp

text \<open>
  Claim C7 as amended. \<^verbatim>\<open>fetch_cluster_posts\<close> returns at most 500 rows. Without a
  connection, when the statement raises, or when the formatting of the fetched rows
  raises (a base score whose rounded value does not fit 64 bits), it returns the empty
  result. Otherwise it returns the rows of the statement: the first 500 of the posts
  whose cluster id at the level equals \<open>cid\<close>, put in descending order of score (when
  \<open>sort_by\<close> is \<^verbatim>\<open>"score"\<close>) or of publication date (otherwise), NULLs last; these are
  all such posts when there are at most 500 of them.
\<close>

theorem fetch_cluster_posts_spec:
  "length (fetch_cluster_posts env lvl cid sort_by) \<le> 500
   \<and> (connect_db env = None \<longrightarrow> fetch_cluster_posts env lvl cid sort_by = [])
   \<and> (\<forall>conn e. connect_db env = Some conn \<and> cluster_posts_query conn lvl cid sort_by = Inl e
        \<longrightarrow> fetch_cluster_posts env lvl cid sort_by = [])
   \<and> (\<forall>conn rows. connect_db env = Some conn \<and> cluster_posts_query conn lvl cid sort_by = Inr rows
          \<and> formatting_raises rows
        \<longrightarrow> fetch_cluster_posts env lvl cid sort_by = [])
   \<and> (\<forall>conn rows. connect_db env = Some conn \<and> cluster_posts_query conn lvl cid sort_by = Inr rows
          \<and> \<not> formatting_raises rows
        \<longrightarrow> fetch_cluster_posts env lvl cid sort_by = rows
            \<and> (\<exists>all. mset all = mset (filter (\<lambda>p. ea_cluster p lvl = Some cid) (posts conn))
                  \<and> sorted_wrt (fetch_order sort_by) all \<and> rows = take 500 all)
            \<and> set rows \<subseteq> {p \<in> set (posts conn). ea_cluster p lvl = Some cid}
            \<and> (length (filter (\<lambda>p. ea_cluster p lvl = Some cid) (posts conn)) \<le> 500
                 \<longrightarrow> mset rows = mset (filter (\<lambda>p. ea_cluster p lvl = Some cid) (posts conn))))"
proof (intro conjI allI impI)
  show "length (fetch_cluster_posts env lvl cid sort_by) \<le> 500"
    by (auto simp: fetch_cluster_posts_def cluster_posts_query_def
          split: option.splits sum.splits)
next
  assume "connect_db env = None"
  then show "fetch_cluster_posts env lvl cid sort_by = []"
    by (simp add: fetch_cluster_posts_def)
next
  fix conn e
  assume "connect_db env = Some conn \<and> cluster_posts_query conn lvl cid sort_by = Inl e"
  then show "fetch_cluster_posts env lvl cid sort_by = []"
    by (simp add: fetch_cluster_posts_def)
next
  fix conn rows
  assume "connect_db env = Some conn \<and> cluster_posts_query conn lvl cid sort_by = Inr rows
      \<and> formatting_raises rows"
  then show "fetch_cluster_posts env lvl cid sort_by = []"
    by (simp add: fetch_cluster_posts_def)
next
  fix conn rows
  assume a: "connect_db env = Some conn \<and> cluster_posts_query conn lvl cid sort_by = Inr rows
      \<and> \<not> formatting_raises rows"
  then show "fetch_cluster_posts env lvl cid sort_by = rows"
    by (simp add: fetch_cluster_posts_def)
  from a obtain all where all:
    "mset all = mset (filter (\<lambda>p. ea_cluster p lvl = Some cid) (posts conn))"
    "sorted_wrt (fetch_order sort_by) all" "rows = take 500 all"
    using cluster_posts_query_rows by blast
  then show "\<exists>all. mset all = mset (filter (\<lambda>p. ea_cluster p lvl = Some cid) (posts conn))
      \<and> sorted_wrt (fetch_order sort_by) all \<and> rows = take 500 all"
    by blast
  from all(1) have s: "set all = set (filter (\<lambda>p. ea_cluster p lvl = Some cid) (posts conn))"
    by (rule mset_eq_setD)
  have "set rows \<subseteq> set all"
    unfolding all(3) by (rule set_take_subset)
  with s show "set rows \<subseteq> {p \<in> set (posts conn). ea_cluster p lvl = Some cid}"
    by auto
  assume "length (filter (\<lambda>p. ea_cluster p lvl = Some cid) (posts conn)) \<le> 500"
  moreover from all(1) have "length all
      = length (filter (\<lambda>p. ea_cluster p lvl = Some cid) (posts conn))"
    by (rule mset_eq_length)
  ultimately have "rows = all"
    unfolding all(3) by simp
  with all(1) show "mset rows = mset (filter (\<lambda>p. ea_cluster p lvl = Some cid) (posts conn))"
    by simp
qed

theorem fetch_cluster_posts_spec_witness:
  "connect_db ex_env = Some ex_db
   \<and> cluster_posts_query ex_db 5 1 ''score'' = Inr (projr (cluster_posts_query ex_db 5 1 ''score''))
   \<and> \<not> formatting_raises (projr (cluster_posts_query ex_db 5 1 ''score''))
   \<and> map post_id (fetch_cluster_posts ex_env 5 1 ''score'') = [''b'', ''a'']
   \<and> set (projr (cluster_posts_query ex_db 5 1 ''score''))
       \<subseteq> {p \<in> set (posts ex_db). ea_cluster p 5 = Some 1}
   \<and> connect_db (ex_env\<lparr>database_url := []\<rparr>) = None
   \<and> fetch_cluster_posts (ex_env\<lparr>database_url := []\<rparr>) 5 1 ''score'' = []"
proof -
  have h1: "connect_db ex_env = Some ex_db"
    by (simp add: connect_db_def ex_env_def)
  have "\<not> isl (cluster_posts_query ex_db 5 1 ''score'')"
    by code_simp
  then have h2: "cluster_posts_query ex_db 5 1 ''score''
      = Inr (projr (cluster_posts_query ex_db 5 1 ''score''))"
    by (rule not_isl_collapse)
  have h3: "map post_id (projr (cluster_posts_query ex_db 5 1 ''score'')) = [''b'', ''a'']"
    by code_simp
  have h8: "\<not> formatting_raises (projr (cluster_posts_query ex_db 5 1 ''score''))"
    by code_simp
  from fetch_cluster_posts_spec [of ex_env 5 1 "''score''"] h1 h2 h8
  have r: "fetch_cluster_posts ex_env 5 1 ''score'' = projr (cluster_posts_query ex_db 5 1 ''score'')"
    and h4: "set (projr (cluster_posts_query ex_db 5 1 ''score''))
      \<subseteq> {p \<in> set (posts ex_db). ea_cluster p 5 = Some 1}"
    by blast+
  from r h3 have h5: "map post_id (fetch_cluster_posts ex_env 5 1 ''score'') = [''b'', ''a'']"
    by simp
  have h6: "connect_db (ex_env\<lparr>database_url := []\<rparr>) = None"
    by (simp add: connect_db_def)
  from fetch_cluster_posts_spec [of "ex_env\<lparr>database_url := []\<rparr>" 5 1 "''score''"] h6
  have h7: "fetch_cluster_posts (ex_env\<lparr>database_url := []\<rparr>) 5 1 ''score'' = []"
    by blast
  show ?thesis
    by (intro conjI) (fact h1 h2 h8 h4 h5 h6 h7)+
qed

text \<open>
  Claim C8. A level \<open>L\<close> whose column \<^verbatim>\<open>ea_cluster_L\<close> does not exist does not make the
  aggregator fail and leaves no trace but its skip notice: \<^verbatim>\<open>summarize_level\<close> returns
  after printing the notice; both exports collect the rows they collect without \<open>L\<close> in
  the levels, none of them with level \<open>L\<close>; the whole run ends as the run without \<open>L\<close>
  ends (with the same exception or none) and leaves the same artifacts; and the run
  prints no section title for \<open>L\<close>.
\<close>

theorem missing_level_is_skipped:
  assumes "\<not> column_exists conn ''fellowship_mvp'' (id_col L)"
  shows "summarize_level conn L cf = Inr [SkipNotice L]
       \<and> export_level_overview_rows conn levels
           = export_level_overview_rows conn (removeAll L levels)
       \<and> export_cluster_details_rows conn levels
           = export_cluster_details_rows conn (removeAll L levels)
       \<and> (\<forall>lrows. export_level_overview_rows conn levels = Inr lrows
             \<longrightarrow> (\<forall>r\<in>set lrows. level r \<noteq> L))
       \<and> (\<forall>crows. export_cluster_details_rows conn levels = Inr crows
             \<longrightarrow> (\<forall>r\<in>set crows. level r \<noteq> L))
       \<and> fst (run conn levels cf w) = fst (run conn (removeAll L levels) cf w)
       \<and> artifacts (snd (run conn levels cf w))
           = artifacts (snd (run conn (removeAll L levels) cf w))
       \<and> (\<forall>t. SectionTitle L t \<in> set (console (snd (run conn levels cf w)))
             \<longrightarrow> SectionTitle L t \<in> set (console w))"
proof -
  have a: "summarize_level conn L cf = Inr [SkipNotice L]"
    using assms by (simp add: summarize_level_def)
  have b: "export_level_overview_rows conn levels
      = export_level_overview_rows conn (removeAll L levels)"
    using assms by (rule export_level_overview_rows_skip)
  have c: "export_cluster_details_rows conn levels
      = export_cluster_details_rows conn (removeAll L levels)"
    using assms by (rule export_cluster_details_rows_skip)
  have d: "\<forall>lrows. export_level_overview_rows conn levels = Inr lrows
      \<longrightarrow> (\<forall>r\<in>set lrows. level r \<noteq> L)"
    using assms export_level_overview_rows_levels by blast
  have e: "\<forall>crows. export_cluster_details_rows conn levels = Inr crows
      \<longrightarrow> (\<forall>r\<in>set crows. level r \<noteq> L)"
    using assms export_cluster_details_levels by blast
  have ex: "(\<exists>l\<in>set levels. column_exists conn ''fellowship_mvp'' (id_col l))
      = (\<exists>l\<in>set (removeAll L levels). column_exists conn ''fellowship_mvp'' (id_col l))"
    using assms by auto
  have f: "fst (run conn levels cf w) = fst (run conn (removeAll L levels) cf w)"
    unfolding run_fst b [symmetric] c [symmetric] ex [symmetric] ..
  have g: "artifacts (snd (run conn levels cf w))
      = artifacts (snd (run conn (removeAll L levels) cf w))"
    unfolding run_artifacts b [symmetric] c [symmetric] ex [symmetric] ..
  have h: "\<forall>t. SectionTitle L t \<in> set (console (snd (run conn levels cf w)))
      \<longrightarrow> SectionTitle L t \<in> set (console w)"
    using assms run_titles by blast
  from a b c d e f g h show ?thesis by blast
qed

theorem missing_level_is_skipped_witness:
  "\<not> column_exists ex_db ''fellowship_mvp'' (id_col 30)
   \<and> summarize_level ex_db 30 None = Inr [SkipNotice 30]
   \<and> fst (run ex_db [5, 12, 30] None ex_world) = None
   \<and> artifacts (snd (run ex_db [5, 12, 30] None ex_world))
       = artifacts (snd (run ex_db [5, 12] None ex_world))
   \<and> map_option (map level) (level_csv (snd (run ex_db [5, 12] None ex_world))) = Some [5, 12]
   \<and> map_option (map level) (cluster_csv (snd (run ex_db [5, 12] None ex_world)))
       = Some [5, 5, 12]"
proof -
  have h1: "\<not> column_exists ex_db ''fellowship_mvp'' (id_col 30)"
    by code_simp
  have rm: "removeAll 30 [5, 12, 30 :: int] = [5, 12]"
    by simp
  from missing_level_is_skipped [OF h1, of None "[5, 12, 30]" ex_world]
  have h2: "summarize_level ex_db 30 None = Inr [SkipNotice 30]"
    and f: "fst (run ex_db [5, 12, 30] None ex_world) = fst (run ex_db [5, 12] None ex_world)"
    and h4: "artifacts (snd (run ex_db [5, 12, 30] None ex_world))
      = artifacts (snd (run ex_db [5, 12] None ex_world))"
    unfolding rm by blast+
  have "fst (run ex_db [5, 12] None ex_world) = None"
    by code_simp
  with f have h3: "fst (run ex_db [5, 12, 30] None ex_world) = None"
    by simp
  have h5: "map_option (map level) (level_csv (snd (run ex_db [5, 12] None ex_world)))
      = Some [5, 12]"
    by code_simp
  have h6: "map_option (map level) (cluster_csv (snd (run ex_db [5, 12] None ex_world)))
      = Some [5, 5, 12]"
    by code_simp
  show ?thesis
    by (intro conjI) (fact h1 h2 h3 h4 h5 h6)+
qed

text \<open>
  Claim C9. Two runs of \<^verbatim>\<open>main\<close> that differ only in the \<^verbatim>\<open>EA_CLASSIFICATION_FILTER\<close>
  setting (same other settings, same outcome of \<^verbatim>\<open>connect_db\<close>, same files before the
  run) leave the same two CSV artifacts: the filter reaches \<^verbatim>\<open>summarize_level\<close> only,
  which writes no file and fails or not regardless of the filter.
\<close>

theorem filter_does_not_reach_artifacts:
  "level_csv (snd (main (env\<lparr>EA_CLASSIFICATION_FILTER := fa\<rparr>) connection w))
     = level_csv (snd (main (env\<lparr>EA_CLASSIFICATION_FILTER := fb\<rparr>) connection w))
   \<and> cluster_csv (snd (main (env\<lparr>EA_CLASSIFICATION_FILTER := fa\<rparr>) connection w))
     = cluster_csv (snd (main (env\<lparr>EA_CLASSIFICATION_FILTER := fb\<rparr>) connection w))"
proof (cases connection)
  case None
  then show ?thesis by (simp add: main_def)
next
  case (Some conn)
  have "artifacts (snd (run conn (parse_levels (CLUSTER_LEVELS env)) (parse_filter fa) w))
      = artifacts (snd (run conn (parse_levels (CLUSTER_LEVELS env)) (parse_filter fb) w))"
    unfolding run_artifacts ..
  with Some show ?thesis
    by (simp add: main_def artifacts_def)
qed

theorem filter_does_not_reach_artifacts_witness:
  "map_option (map post_count)
     (level_csv (snd (main (ex_agg_env\<lparr>EA_CLASSIFICATION_FILTER := ''EA_META''\<rparr>)
        (Some ex_db) ex_world))) = Some [3, 1]
   \<and> map_option (map post_count)
     (level_csv (snd (main (ex_agg_env\<lparr>EA_CLASSIFICATION_FILTER := []\<rparr>)
        (Some ex_db) ex_world))) = Some [3, 1]
   \<and> length (console (snd (main (ex_agg_env\<lparr>EA_CLASSIFICATION_FILTER := ''EA_META''\<rparr>)
        (Some ex_db) ex_world)))
       < length (console (snd (main (ex_agg_env\<lparr>EA_CLASSIFICATION_FILTER := []\<rparr>)
        (Some ex_db) ex_world)))"
proof -
  have lv: "parse_levels (of_ascii ''5,12,30'') = [5, 12, 30]"
    by (simp add: parse_levels_def level_entries_def py_int_def signed_value_def ustrip_def
          unicode_space_def int_space_def decimal_value_def decimal_bases_def
          max_str_digits_def of_ascii_def)
  have m: "main (ex_agg_env\<lparr>EA_CLASSIFICATION_FILTER := fa\<rparr>) (Some ex_db) ex_world
      = run ex_db [5, 12, 30] (parse_filter fa) ex_world" for fa
    by (simp add: main_def ex_agg_env_def lv)
  have h1: "map_option (map post_count)
      (level_csv (snd (main (ex_agg_env\<lparr>EA_CLASSIFICATION_FILTER := ''EA_META''\<rparr>)
        (Some ex_db) ex_world))) = Some [3, 1]"
    unfolding m by code_simp
  from filter_does_not_reach_artifacts
    [where env = ex_agg_env and fa = "''EA_META''" and connection = "Some ex_db"
       and w = ex_world and fb = "[]"]
  have "level_csv (snd (main (ex_agg_env\<lparr>EA_CLASSIFICATION_FILTER := ''EA_META''\<rparr>)
        (Some ex_db) ex_world))
      = level_csv (snd (main (ex_agg_env\<lparr>EA_CLASSIFICATION_FILTER := []\<rparr>)
        (Some ex_db) ex_world))"
    by blast
  with h1 have h2: "map_option (map post_count)
      (level_csv (snd (main (ex_agg_env\<lparr>EA_CLASSIFICATION_FILTER := []\<rparr>)
        (Some ex_db) ex_world))) = Some [3, 1]"
    by simp
  have h3: "length (console (snd (main (ex_agg_env\<lparr>EA_CLASSIFICATION_FILTER := ''EA_META''\<rparr>)
        (Some ex_db) ex_world)))
      < length (console (snd (main (ex_agg_env\<lparr>EA_CLASSIFICATION_FILTER := []\<rparr>)
        (Some ex_db) ex_world)))"
    unfolding m by code_simp
  show ?thesis
    by (intro conjI) (fact h1 h2 h3)+
qed


section \<open>Further properties of the artifacts\<close>

text \<open>
  Every cluster-summary row has both label counts, they are not negative and
  \<open>meta_posts + proper_posts \<le> post_count\<close>: a group is never empty.
\<close>

theorem cluster_row_counts_bounded:
  "export_cluster_details_rows conn levels = Inr crows \<Longrightarrow> r \<in> set crows \<Longrightarrow>
     \<exists>m p. meta_posts r = Some m \<and> proper_posts r = Some p
       \<and> 0 \<le> m \<and> 0 \<le> p \<and> m + p \<le> post_count r"
proof (induction levels arbitrary: crows)
  case Nil
  then show ?case by simp
next
  case (Cons lvl levels)
  show ?case
  proof (cases "column_exists conn ''fellowship_mvp'' (id_col lvl)")
    case False
    with Cons show ?thesis by auto
  next
    case True
    from True Cons.prems(1) obtain res crows' where
      res: "cluster_details_query conn lvl = Inr res" and
      cr: "export_cluster_details_rows conn levels = Inr crows'" and
      crows: "crows = res @ crows'"
      by (auto split: sum.splits)
    from Cons.prems(2) crows consider "r \<in> set res" | "r \<in> set crows'" by auto
    then show ?thesis
    proof cases
      case 1
      with res show ?thesis by (rule cluster_details_query_bounded)
    next
      case 2
      with Cons.IH [OF cr] show ?thesis by blast
    qed
  qed
qed

theorem cluster_row_counts_bounded_witness:
  "export_cluster_details_rows ex_db [5, 12, 30]
     = Inr (projr (export_cluster_details_rows ex_db [5, 12, 30]))
   \<and> hd (projr (export_cluster_details_rows ex_db [5, 12, 30]))
       \<in> set (projr (export_cluster_details_rows ex_db [5, 12, 30]))
   \<and> (\<exists>m p. meta_posts (hd (projr (export_cluster_details_rows ex_db [5, 12, 30]))) = Some m
         \<and> proper_posts (hd (projr (export_cluster_details_rows ex_db [5, 12, 30]))) = Some p
         \<and> 0 \<le> m \<and> 0 \<le> p
         \<and> m + p \<le> post_count (hd (projr (export_cluster_details_rows ex_db [5, 12, 30]))))"
proof -
  have h1: "export_cluster_details_rows ex_db [5, 12, 30]
      = Inr (projr (export_cluster_details_rows ex_db [5, 12, 30]))"
    by code_simp
  have h2: "hd (projr (export_cluster_details_rows ex_db [5, 12, 30]))
      \<in> set (projr (export_cluster_details_rows ex_db [5, 12, 30]))"
    by code_simp
  note h3 = cluster_row_counts_bounded [OF h1 h2]
  show ?thesis
    by (intro conjI) (fact h1 h2 h3)+
qed

text \<open>
  A level-summary row with a positive post count has both label counts, they are not
  negative and \<open>meta_posts + proper_posts \<le> post_count\<close>; a level-summary row with post
  count 0 has neither label count.
\<close>

theorem level_row_counts_bounded:
  "export_level_overview_rows conn levels = Inr lrows \<Longrightarrow> r \<in> set lrows \<Longrightarrow>
     (0 < post_count r \<longrightarrow> (\<exists>m p. meta_posts r = Some m \<and> proper_posts r = Some p
            \<and> 0 \<le> m \<and> 0 \<le> p \<and> m + p \<le> post_count r))
     \<and> (post_count r = 0 \<longrightarrow> meta_posts r = None \<and> proper_posts r = None)"
proof (induction levels arbitrary: lrows)
  case Nil
  then show ?case by simp
next
  case (Cons lvl levels)
  show ?case
  proof (cases "column_exists conn ''fellowship_mvp'' (id_col lvl)")
    case False
    with Cons show ?thesis by auto
  next
    case True
    from True Cons.prems(1) obtain r' lrows' where
      r': "level_overview_query conn lvl = Inr r'" and
      lr: "export_level_overview_rows conn levels = Inr lrows'" and
      lrows: "lrows = r' # lrows'"
      by (auto split: sum.splits)
    from Cons.prems(2) lrows consider "r = r'" | "r \<in> set lrows'" by auto
    then show ?thesis
    proof cases
      case 1
      with level_overview_query_bounded [OF r'] show ?thesis by simp
    next
      case 2
      with Cons.IH [OF lr] show ?thesis by blast
    qed
  qed
qed

theorem level_row_counts_bounded_witness:
  "export_level_overview_rows ex_db [5, 12, 30]
     = Inr (projr (export_level_overview_rows ex_db [5, 12, 30]))
   \<and> hd (projr (export_level_overview_rows ex_db [5, 12, 30]))
       \<in> set (projr (export_level_overview_rows ex_db [5, 12, 30]))
   \<and> 0 < post_count (hd (projr (export_level_overview_rows ex_db [5, 12, 30])))
   \<and> (\<exists>m p. meta_posts (hd (projr (export_level_overview_rows ex_db [5, 12, 30]))) = Some m
         \<and> proper_posts (hd (projr (export_level_overview_rows ex_db [5, 12, 30]))) = Some p
         \<and> 0 \<le> m \<and> 0 \<le> p
         \<and> m + p \<le> post_count (hd (projr (export_level_overview_rows ex_db [5, 12, 30]))))"
proof -
  have h1: "export_level_overview_rows ex_db [5, 12, 30]
      = Inr (projr (export_level_overview_rows ex_db [5, 12, 30]))"
    by code_simp
  have h2: "hd (projr (export_level_overview_rows ex_db [5, 12, 30]))
      \<in> set (projr (export_level_overview_rows ex_db [5, 12, 30]))"
    by code_simp
  have h3: "0 < post_count (hd (projr (export_level_overview_rows ex_db [5, 12, 30])))"
    by code_simp
  from level_row_counts_bounded [OF h1 h2] h3
  have h4: "\<exists>m p. meta_posts (hd (projr (export_level_overview_rows ex_db [5, 12, 30]))) = Some m
      \<and> proper_posts (hd (projr (export_level_overview_rows ex_db [5, 12, 30]))) = Some p
      \<and> 0 \<le> m \<and> 0 \<le> p
      \<and> m + p \<le> post_count (hd (projr (export_level_overview_rows ex_db [5, 12, 30])))"
    by blast
  show ?thesis
    by (intro conjI) (fact h1 h2 h3 h4)+
qed

text \<open>
  Two levels whose cluster id columns are NULL on the same posts get level-summary rows
  that agree in every column but the level.
\<close>

theorem level_rows_agree_on_same_population:
  assumes "\<forall>p\<in>set (posts conn). (ea_cluster p L1 = None) = (ea_cluster p L2 = None)"
    and "level_overview_query conn L1 = Inr r1"
    and "level_overview_query conn L2 = Inr r2"
  shows "r2 = r1\<lparr>level := L2\<rparr>"
proof -
  have "filter (\<lambda>p. ea_cluster p L1 \<noteq> None) (posts conn)
      = filter (\<lambda>p. ea_cluster p L2 \<noteq> None) (posts conn)"
    using assms(1) by (intro filter_cong) auto
  with assms(2,3) show ?thesis
    by (auto simp: level_overview_query_def aggregates_def split: option.splits)
qed

theorem level_rows_agree_on_same_population_witness:
  "(\<forall>p\<in>set (posts uniform_db). (ea_cluster p 5 = None) = (ea_cluster p 12 = None))
   \<and> level_overview_query uniform_db 5 = Inr (projr (level_overview_query uniform_db 5))
   \<and> level_overview_query uniform_db 12 = Inr (projr (level_overview_query uniform_db 12))
   \<and> post_count (projr (level_overview_query uniform_db 12)) = 2
   \<and> projr (level_overview_query uniform_db 12)
       = (projr (level_overview_query uniform_db 5))\<lparr>level := 12\<rparr>"
proof -
  have h1: "\<forall>p\<in>set (posts uniform_db). (ea_cluster p 5 = None) = (ea_cluster p 12 = None)"
    by code_simp
  have h2: "level_overview_query uniform_db 5 = Inr (projr (level_overview_query uniform_db 5))"
    by code_simp
  have h3: "level_overview_query uniform_db 12 = Inr (projr (level_overview_query uniform_db 12))"
    by code_simp
  have h4: "post_count (projr (level_overview_query uniform_db 12)) = 2"
    by code_simp
  note h5 = level_rows_agree_on_same_population [OF h1 h2 h3]
  show ?thesis
    by (intro conjI) (fact h1 h2 h3 h4 h5)+
qed

end
